theory Spec2Isabelle
  imports Main "HOL-Library.Char_ord" "HOL-Library.List_Lexorder"
begin

section \<open>Network monitor (services/sync.ts, initNetworkListener)\<close>

text \<open>
  The module keeps three variables: \<open>isOnline\<close> (initially true),
  \<open>offlineTimestamp\<close> (initially null) and \<open>syncTimeout\<close> (initially null). The
  JavaScript runtime adds the timers that are armed and the callbacks that have started
  \<open>syncAll\<close> and wait for it. Times are the readings of \<open>Date.now()\<close> in
  milliseconds. A timer handle is a number; handles are handed out from \<open>nextHandle\<close>.
\<close>

record net_state =
  isOnline :: bool
  offlineTimestamp :: "int option"
  syncTimeout :: "nat option"
  timers :: "(nat \<times> int) list"
  nextHandle :: nat
  running :: nat

definition initial_net :: net_state where
  "initial_net = \<lparr>isOnline = True, offlineTimestamp = None, syncTimeout = None,
     timers = [], nextHandle = 1, running = 0\<rparr>"

text \<open>\<open>clearTimeout(h)\<close>: disarms the timer with that handle, if it is still armed.\<close>

definition clearTimeout :: "nat \<Rightarrow> net_state \<Rightarrow> net_state" where
  "clearTimeout h s = s\<lparr>timers := filter (\<lambda>t. fst t \<noteq> h) (timers s)\<rparr>"

text \<open>\<open>syncTimeout = setTimeout(callback, delay)\<close> at time \<open>now\<close>.\<close>

definition setTimeout :: "int \<Rightarrow> int \<Rightarrow> net_state \<Rightarrow> net_state" where
  "setTimeout delay now s =
     s\<lparr>syncTimeout := Some (nextHandle s),
       timers := timers s @ [(nextHandle s, now + delay)],
       nextHandle := Suc (nextHandle s)\<rparr>"

text \<open>
  The listener registered with \<open>NetInfo.addEventListener\<close>, run on a notification whose
  \<open>state.isConnected\<close> is \<open>isConnected\<close> (null is \<open>None\<close>) while \<open>Date.now()\<close>
  reads \<open>now\<close>. \<open>offlineTimestamp ? ... : 0\<close> and \<open>if (syncTimeout)\<close> test
  truthiness: null and the number 0 are both false.
\<close>

definition listener :: "bool option \<Rightarrow> int \<Rightarrow> net_state \<Rightarrow> net_state" where
  "listener isConnected now s =
     (let wasOffline = \<not> isOnline s;
          s1 = s\<lparr>isOnline := (case isConnected of None \<Rightarrow> False | Some b \<Rightarrow> b)\<rparr>;
          s2 = (if \<not> isOnline s1 \<and> wasOffline = False
                then s1\<lparr>offlineTimestamp := Some now\<rparr> else s1)
      in if wasOffline \<and> isOnline s2 then
           (let offlineDuration =
                  (case offlineTimestamp s2 of
                     None \<Rightarrow> 0
                   | Some t \<Rightarrow> if t = 0 then 0 else now - t)
            in if offlineDuration > 3000 then
                 (let s3 = (case syncTimeout s2 of
                              None \<Rightarrow> s2
                            | Some h \<Rightarrow> if h = 0 then s2 else clearTimeout h s2)
                  in setTimeout 2000 now s3)
               else s2\<lparr>offlineTimestamp := None\<rparr>)
         else s2)"

text \<open>
  The scheduled callback is \<open>try { await syncAll(); ... } catch ... finally
  { offlineTimestamp = null }\<close>. It runs in two steps: when the runtime fires the timer
  (not before it is due) the callback starts \<open>syncAll\<close>; when \<open>syncAll\<close> settles, the
  \<open>finally\<close> block clears \<open>offlineTimestamp\<close>. Notifications can arrive between the two.
\<close>

definition timerFires :: "nat \<Rightarrow> int \<Rightarrow> net_state \<Rightarrow> net_state" where
  "timerFires h now s =
     (if list_ex (\<lambda>t. fst t = h \<and> snd t \<le> now) (timers s)
      then s\<lparr>timers := filter (\<lambda>t. fst t \<noteq> h) (timers s), running := Suc (running s)\<rparr>
      else s)"

definition syncSettles :: "net_state \<Rightarrow> net_state" where
  "syncSettles s =
     (if running s = 0 then s
      else s\<lparr>running := running s - 1, offlineTimestamp := None\<rparr>)"

datatype net_event =
    NetInfo "bool option" int
  | TimerFires nat int
  | SyncSettles

fun net_step :: "net_state \<Rightarrow> net_event \<Rightarrow> net_state" where
  "net_step s (NetInfo c now) = listener c now s"
| "net_step s (TimerFires h now) = timerFires h now s"
| "net_step s SyncSettles = syncSettles s"

definition net_run :: "net_event list \<Rightarrow> net_state \<Rightarrow> net_state" where
  "net_run es s = foldl net_step s es"

text \<open>Events that can occur while the device stays offline: further offline
  notifications, and the callbacks of timers armed earlier.\<close>

fun stays_offline :: "net_event \<Rightarrow> bool" where
  "stays_offline (NetInfo c now) = (c \<noteq> Some True)"
| "stays_offline (TimerFires h now) = True"
| "stays_offline SyncSettles = True"


section \<open>Local store (database/schema.ts, AsyncStorage)\<close>

datatype operation_type = OpCreate | OpUpdate | OpDelete

datatype entity_type = Category | Item | Bill | Inventory

text \<open>A value held in an SQLite column, where the code can store more than one kind.\<close>

datatype sqlval = SqlNull | SqlInt int | SqlText string

text \<open>
  A row of \<open>sync_queue\<close> (\<open>DBSyncQueue\<close>). Timestamps are the ISO strings that
  \<open>new Date().toISOString()\<close> returns; SQLite compares them as text. \<open>synced\<close> is
  only ever written 0 or 1 and is a boolean here.
\<close>

record sync_queue_row =
  q_id :: nat
  q_operation_type :: operation_type
  q_entity_type :: entity_type
  q_entity_id :: string
  q_data :: string
  q_timestamp :: string
  q_retry_count :: nat
  q_last_error :: "string option"
  q_synced :: bool
  q_synced_at :: "string option"
  q_created_at :: string

text \<open>The columns of the entity tables that the sync engine reads or writes.\<close>

record category_row =
  cat_id :: string
  cat_is_synced :: bool
  cat_server_updated_at :: "string option"
  cat_updated_at :: string

record item_row =
  item_id :: string
  item_is_synced :: bool
  item_server_updated_at :: "string option"
  item_image_url :: "string option"
  item_updated_at :: string

record bill_row =
  b_id :: string
  b_invoice_number :: "string option"
  b_bill_number :: string
  b_items :: string
  b_device_id :: "string option"
  b_is_synced :: sqlval
  b_created_at :: string
  b_updated_at :: sqlval

record inventory_row =
  inv_id :: string
  inv_fields :: string
  inv_is_synced :: bool

record history_entry =
  he_id :: string
  he_date :: string
  he_timestamp :: string
  he_items :: "(string \<times> nat) list"

text \<open>
  The tables, each a list of rows in rowid order, and the three AsyncStorage keys the
  engine uses (\<open>@user_data\<close>, \<open>sync_history\<close>, \<open>last_sync_time\<close>). Statements
  on the tables and accesses to AsyncStorage are taken to succeed; the one exception is
  the INSERT of a downloaded bill, which the \<open>bills\<close> table can refuse.
\<close>

record store =
  sync_queue :: "sync_queue_row list"
  categories :: "category_row list"
  items :: "item_row list"
  bills :: "bill_row list"
  inventory_items :: "inventory_row list"
  user_data :: "string option"
  sync_history :: "history_entry list"
  last_sync_time :: "string option"

section \<open>Collaborators (services/api.ts, NetInfo, JSON, helpers)\<close>

text \<open>A rejected request; the argument is \<open>error.response?.status\<close>.\<close>

datatype api_error = ApiError "nat option"

record sync_item =
  si_operation :: operation_type
  si_data :: "string option"
  si_id :: "string option"
  si_timestamp :: string

record category_echo =
  ce_id :: string
  ce_updated_at :: string

record item_echo =
  ie_id :: string
  ie_last_updated :: string
  ie_image_url :: "string option"

record bill_wire =
  bw_invoice_number :: string
  bw_bill_id :: string
  bw_items :: string
  bw_timestamp :: string
  bw_device_id :: "string option"

record server_bill =
  sb_id :: string
  sb_invoice_number :: string
  sb_bill_number :: "string option"
  sb_items :: string
  sb_device_id :: "string option"
  sb_vendor_id :: "string option"
  sb_timestamp :: string

text \<open>
  Everything the engine calls outside itself. The server is any state \<open>'srv\<close>; a call
  returns the rejection or the response together with the server's next state. A
  category or item sync response carries the optional list of echoed snapshots; an
  element of the list can be null (\<open>None\<close>). A response body that is null, on which
  reading \<open>response.synced\<close> throws before any row is marked, counts as a rejection.
  \<open>import_imageCache\<close> tells whether the dynamic \<open>import('../utils/imageCache')\<close>
  resolves;
  \<open>net_isConnected\<close> is \<open>state.isConnected\<close> of \<open>NetInfo.fetch()\<close>;
  \<open>json_parse\<close> is \<open>JSON.parse\<close>, \<open>None\<close> when it throws, and \<open>js_truthy\<close>
  tells whether a parsed value is truthy;
  \<open>formatDisplayDateTime\<close> is the helper of \<open>utils/helpers\<close>.
\<close>

record 'srv env =
  api_categories_sync :: "sync_item list \<Rightarrow> 'srv \<Rightarrow> (api_error + category_echo option list option) \<times> 'srv"
  api_items_sync :: "sync_item list \<Rightarrow> 'srv \<Rightarrow> (api_error + item_echo option list option) \<times> 'srv"
  api_bills_sync :: "bill_wire list \<Rightarrow> 'srv \<Rightarrow> (api_error + unit) \<times> 'srv"
  api_bills_download :: "nat \<Rightarrow> 'srv \<Rightarrow> (api_error + server_bill list) \<times> 'srv"
  api_inventory_getById :: "string \<Rightarrow> 'srv \<Rightarrow> (api_error + unit) \<times> 'srv"
  api_inventory_update :: "string \<Rightarrow> string \<Rightarrow> 'srv \<Rightarrow> (api_error + unit) \<times> 'srv"
  api_inventory_create :: "string \<Rightarrow> 'srv \<Rightarrow> (api_error + unit) \<times> 'srv"
  net_isConnected :: "bool option"
  json_parse :: "string \<Rightarrow> string option"
  js_truthy :: "string \<Rightarrow> bool"
  formatDisplayDateTime :: "string \<Rightarrow> string"
  import_imageCache :: bool

definition getNetworkStatus :: "'srv env \<Rightarrow> bool" where
  "getNetworkStatus e = (case net_isConnected e of None \<Rightarrow> False | Some b \<Rightarrow> b)"

text \<open>\<open>getUserData\<close> (services/auth.ts): \<open>data ? JSON.parse(data) : null\<close>, and null
  when anything throws. \<open>None\<close> is null.\<close>

definition getUserData :: "'srv env \<Rightarrow> store \<Rightarrow> string option" where
  "getUserData e st =
     (case user_data st of
        None \<Rightarrow> None
      | Some d \<Rightarrow> if d = [] then None else json_parse e d)"


section \<open>Operation queue (services/sync.ts)\<close>

text \<open>The argument of \<open>queueOperation\<close>; \<open>so_data\<close> is
  \<open>JSON.stringify(operation.data)\<close>.\<close>

record sync_operation =
  so_operation_type :: operation_type
  so_entity_type :: entity_type
  so_entity_id :: string
  so_data :: string
  so_timestamp :: string

text \<open>\<open>id INTEGER PRIMARY KEY AUTOINCREMENT\<close>: one more than the largest id in use
  (rows of \<open>sync_queue\<close> are never deleted).\<close>

definition next_rowid :: "sync_queue_row list \<Rightarrow> nat" where
  "next_rowid rows = Suc (fold max (map q_id rows) 0)"

text \<open>
  \<open>queueOperation\<close>: the INSERT, with \<open>retry_count = 0\<close>, \<open>synced = 0\<close> and
  \<open>created_at = now\<close>, the reading of the device clock. (When the device is online the
  source also arms a 500 ms timer that calls \<open>syncAll\<close>; the timer is not part of the
  store.)
\<close>

definition queueOperation :: "sync_operation \<Rightarrow> string \<Rightarrow> store \<Rightarrow> store" where
  "queueOperation operation now st =
     st\<lparr>sync_queue := sync_queue st @
       [\<lparr>q_id = next_rowid (sync_queue st),
         q_operation_type = so_operation_type operation,
         q_entity_type = so_entity_type operation,
         q_entity_id = so_entity_id operation,
         q_data = so_data operation,
         q_timestamp = so_timestamp operation,
         q_retry_count = 0,
         q_last_error = None,
         q_synced = False,
         q_synced_at = None,
         q_created_at = now\<rparr>]\<rparr>"

text \<open>
  \<open>SELECT * FROM sync_queue WHERE synced = 0 ORDER BY created_at ASC\<close>. The statement
  names one sort key; SQLite reads the table in rowid order and sorts stably, which
  \<open>sort_key\<close> does too.
\<close>

definition getPendingOperations :: "store \<Rightarrow> sync_queue_row list" where
  "getPendingOperations st = sort_key q_created_at (filter (\<lambda>r. \<not> q_synced r) (sync_queue st))"

text \<open>\<open>UPDATE sync_queue SET synced = 1, synced_at = ? WHERE id = ?\<close>\<close>

definition markOperationSynced :: "nat \<Rightarrow> string \<Rightarrow> store \<Rightarrow> store" where
  "markOperationSynced operationId now st =
     st\<lparr>sync_queue := map (\<lambda>r. if q_id r = operationId
                                 then r\<lparr>q_synced := True, q_synced_at := Some now\<rparr> else r)
                            (sync_queue st)\<rparr>"

text \<open>\<open>UPDATE sync_queue SET retry_count = retry_count + 1, last_error = ? WHERE id = ?\<close>\<close>

definition updateRetryCount :: "nat \<Rightarrow> string \<Rightarrow> store \<Rightarrow> store" where
  "updateRetryCount operationId err st =
     st\<lparr>sync_queue := map (\<lambda>r. if q_id r = operationId
                                 then r\<lparr>q_retry_count := q_retry_count r + 1, q_last_error := Some err\<rparr>
                                 else r)
                            (sync_queue st)\<rparr>"

section \<open>The four drains (services/sync.ts)\<close>

record sync_result =
  success :: bool
  synced :: nat

definition drain_failed :: sync_result where
  "drain_failed = \<lparr>success = False, synced = 0\<rparr>"

text \<open>\<open>SELECT * FROM sync_queue WHERE entity_type = ? AND synced = 0 ORDER BY created_at
  ASC\<close>, the first statement of \<open>syncCategories\<close> and of \<open>syncItems\<close>.\<close>

definition select_pending :: "entity_type \<Rightarrow> store \<Rightarrow> sync_queue_row list" where
  "select_pending et st =
     sort_key q_created_at (filter (\<lambda>r. q_entity_type r = et \<and> \<not> q_synced r) (sync_queue st))"

text \<open>One element of \<open>syncPayload\<close>; \<open>None\<close> when \<open>JSON.parse(op.data)\<close> throws.\<close>

definition to_sync_item :: "'srv env \<Rightarrow> sync_queue_row \<Rightarrow> sync_item option" where
  "to_sync_item e op =
     (if q_operation_type op = OpDelete
      then Some \<lparr>si_operation = q_operation_type op, si_data = None,
                 si_id = Some (q_entity_id op), si_timestamp = q_timestamp op\<rparr>
      else (case json_parse e (q_data op) of
              None \<Rightarrow> None
            | Some j \<Rightarrow> Some \<lparr>si_operation = q_operation_type op, si_data = Some j,
                               si_id = None, si_timestamp = q_timestamp op\<rparr>))"

text \<open>\<open>operations.map(...)\<close>: the elements in the order of \<open>operations\<close>, or the
  exception of the first element that throws.\<close>

fun syncPayload :: "'srv env \<Rightarrow> sync_queue_row list \<Rightarrow> sync_item list option" where
  "syncPayload e [] = Some []"
| "syncPayload e (op # ops) =
     (case to_sync_item e op of
        None \<Rightarrow> None
      | Some x \<Rightarrow> (case syncPayload e ops of None \<Rightarrow> None | Some xs \<Rightarrow> Some (x # xs)))"

text \<open>\<open>for (const op of operations) await markOperationSynced(op.id)\<close>\<close>

definition markAllSynced :: "sync_queue_row list \<Rightarrow> string \<Rightarrow> store \<Rightarrow> store" where
  "markAllSynced operations now st = fold (\<lambda>op. markOperationSynced (q_id op) now) operations st"

text \<open>
  The snapshots the server echoes, written to \<open>categories\<close> and to \<open>items\<close>:
  \<open>for (const category of response.categories)\<close> with one UPDATE per snapshot.
  Reading a field of a null snapshot throws; the rows written before stay, and the
  boolean tells whether the loop ran to its end.
\<close>

fun echoCategories :: "category_echo option list \<Rightarrow> string \<Rightarrow> store \<Rightarrow> store \<times> bool" where
  "echoCategories [] now st = (st, True)"
| "echoCategories (None # rest) now st = (st, False)"
| "echoCategories (Some category # rest) now st =
     echoCategories rest now
       (st\<lparr>categories := map (\<lambda>r. if cat_id r = ce_id category
                                    then r\<lparr>cat_is_synced := True,
                                           cat_server_updated_at := Some (ce_updated_at category),
                                           cat_updated_at := now\<rparr>
                                    else r) (categories st)\<rparr>)"

fun echoItems :: "item_echo option list \<Rightarrow> string \<Rightarrow> store \<Rightarrow> store \<times> bool" where
  "echoItems [] now st = (st, True)"
| "echoItems (None # rest) now st = (st, False)"
| "echoItems (Some item # rest) now st =
     echoItems rest now
       (st\<lparr>items := map (\<lambda>r. if item_id r = ie_id item
                               then r\<lparr>item_is_synced := True,
                                      item_server_updated_at := Some (ie_last_updated item),
                                      item_image_url := ie_image_url item,
                                      item_updated_at := now\<rparr>
                               else r) (items st)\<rparr>)"

text \<open>\<open>if (response.categories && response.categories.length > 0) { ... }\<close>\<close>

definition applyCategoryEcho ::
  "category_echo option list option \<Rightarrow> string \<Rightarrow> store \<Rightarrow> store \<times> bool" where
  "applyCategoryEcho response now st =
     (case response of
        None \<Rightarrow> (st, True)
      | Some cs \<Rightarrow> echoCategories cs now st)"

text \<open>\<open>if (response.items && response.items.length > 0) { const { cacheItemImage } =
  await import('../utils/imageCache'); ... }\<close>: a failing import throws before any
  snapshot is written. (Caching an echoed image touches no table and swallows its own
  errors.)\<close>

definition applyItemEcho ::
  "'srv env \<Rightarrow> item_echo option list option \<Rightarrow> string \<Rightarrow> store \<Rightarrow> store \<times> bool" where
  "applyItemEcho e response now st =
     (case response of
        None \<Rightarrow> (st, True)
      | Some xs \<Rightarrow>
          if xs = [] then (st, True)
          else if \<not> import_imageCache e then (st, False)
          else echoItems xs now st)"

text \<open>
  \<open>syncCategories\<close> and \<open>syncItems\<close>. \<open>now\<close> stands for the readings of the clock
  during the call. Every exception inside the \<open>try\<close> ends in the \<open>catch\<close>, which
  returns \<open>{success: false, synced: 0}\<close>. The operations are marked before the echoed
  snapshots are read, so an exception in the echo leaves them marked.
\<close>

definition syncCategories :: "'srv env \<Rightarrow> string \<Rightarrow> store \<times> 'srv \<Rightarrow> sync_result \<times> store \<times> 'srv" where
  "syncCategories e now w =
     (let st = fst w; srv = snd w; operations = select_pending Category st in
      if operations = [] then (\<lparr>success = True, synced = 0\<rparr>, st, srv)
      else (case syncPayload e operations of
              None \<Rightarrow> (drain_failed, st, srv)
            | Some payload \<Rightarrow>
                (case api_categories_sync e payload srv of
                   (Inl err, srv') \<Rightarrow> (drain_failed, st, srv')
                 | (Inr response, srv') \<Rightarrow>
                     (let echoed = applyCategoryEcho response now
                                     (markAllSynced operations now st) in
                      if snd echoed
                      then (\<lparr>success = True, synced = length operations\<rparr>, fst echoed, srv')
                      else (drain_failed, fst echoed, srv')))))"

definition syncItems :: "'srv env \<Rightarrow> string \<Rightarrow> store \<times> 'srv \<Rightarrow> sync_result \<times> store \<times> 'srv" where
  "syncItems e now w =
     (let st = fst w; srv = snd w; operations = select_pending Item st in
      if operations = [] then (\<lparr>success = True, synced = 0\<rparr>, st, srv)
      else (case syncPayload e operations of
              None \<Rightarrow> (drain_failed, st, srv)
            | Some payload \<Rightarrow>
                (case api_items_sync e payload srv of
                   (Inl err, srv') \<Rightarrow> (drain_failed, st, srv')
                 | (Inr response, srv') \<Rightarrow>
                     (let echoed = applyItemEcho e response now
                                     (markAllSynced operations now st) in
                      if snd echoed
                      then (\<lparr>success = True, synced = length operations\<rparr>, fst echoed, srv')
                      else (drain_failed, fst echoed, srv')))))"

text \<open>
  \<open>syncBills\<close>. \<open>if (!userData)\<close> holds for null and for any other falsy value.
  The bills come from the \<open>bills\<close> table:
  \<open>SELECT * FROM bills WHERE is_synced = 0 ORDER BY created_at ASC LIMIT 50\<close>. Of the
  wire object the model keeps the fields computed from more than one column and the
  identifying ones; \<open>bill.invoice_number || bill.bill_number\<close> takes the second when the
  first is null or empty.
\<close>

definition select_unsynced_bills :: "store \<Rightarrow> bill_row list" where
  "select_unsynced_bills st =
     take 50 (sort_key b_created_at (filter (\<lambda>b. b_is_synced b = SqlInt 0) (bills st)))"

definition to_bill_wire :: "'srv env \<Rightarrow> bill_row \<Rightarrow> bill_wire option" where
  "to_bill_wire e bill =
     (case json_parse e (b_items bill) of
        None \<Rightarrow> None
      | Some billItems \<Rightarrow>
          Some \<lparr>bw_invoice_number =
                   (case b_invoice_number bill of
                      None \<Rightarrow> b_bill_number bill
                    | Some v \<Rightarrow> if v = [] then b_bill_number bill else v),
                 bw_bill_id = b_id bill,
                 bw_items = billItems,
                 bw_timestamp = b_created_at bill,
                 bw_device_id = b_device_id bill\<rparr>)"

fun billPayload :: "'srv env \<Rightarrow> bill_row list \<Rightarrow> bill_wire list option" where
  "billPayload e [] = Some []"
| "billPayload e (bill # rest) =
     (case to_bill_wire e bill of
        None \<Rightarrow> None
      | Some x \<Rightarrow> (case billPayload e rest of None \<Rightarrow> None | Some xs \<Rightarrow> Some (x # xs)))"

text \<open>\<open>UPDATE bills SET is_synced = 1 WHERE id IN (...)\<close>\<close>

definition markBillsSynced :: "string list \<Rightarrow> store \<Rightarrow> store" where
  "markBillsSynced billIds st =
     st\<lparr>bills := map (\<lambda>b. if b_id b \<in> set billIds then b\<lparr>b_is_synced := SqlInt 1\<rparr> else b)
                       (bills st)\<rparr>"

definition syncBills :: "'srv env \<Rightarrow> string \<Rightarrow> store \<times> 'srv \<Rightarrow> sync_result \<times> store \<times> 'srv" where
  "syncBills e now w =
     (let st = fst w; srv = snd w in
      case getUserData e st of
        None \<Rightarrow> (drain_failed, st, srv)
      | Some userData \<Rightarrow>
          if \<not> js_truthy e userData then (drain_failed, st, srv)
          else
            (let bs = select_unsynced_bills st in
             if bs = [] then (\<lparr>success = True, synced = 0\<rparr>, st, srv)
             else (case billPayload e bs of
                     None \<Rightarrow> (drain_failed, st, srv)
                   | Some payload \<Rightarrow>
                       (case api_bills_sync e payload srv of
                          (Inl err, srv') \<Rightarrow> (drain_failed, st, srv')
                        | (Inr response, srv') \<Rightarrow>
                            (\<lparr>success = True, synced = length bs\<rparr>,
                             markBillsSynced (map b_id bs) st, srv')))))"

text \<open>
  Modelled from the spec: \<open>getUnsyncedInventoryItems\<close> and
  \<open>markInventoryItemSynced\<close> of services/storage.ts, which is not among the sources.
  The spec: "each unsynced inventory item is synchronized individually: probe whether
  it exists server-side ..., then either update or create accordingly, then mark that
  single item synced".
\<close>

definition getUnsyncedInventoryItems :: "store \<Rightarrow> inventory_row list" where
  "getUnsyncedInventoryItems st = filter (\<lambda>i. \<not> inv_is_synced i) (inventory_items st)"

definition markInventoryItemSynced :: "string \<Rightarrow> store \<Rightarrow> store" where
  "markInventoryItemSynced ident st =
     st\<lparr>inventory_items := map (\<lambda>i. if inv_id i = ident then i\<lparr>inv_is_synced := True\<rparr> else i)
                                 (inventory_items st)\<rparr>"

text \<open>
  The loop of \<open>syncInventory\<close> over the unsynced items, carrying the store, the server,
  \<open>syncedCount\<close> and \<open>errorCount\<close>. A rejected probe whose status is not 404 is thrown
  again and, like a rejected update or create, counted by the \<open>catch\<close> of that item.
\<close>

fun syncInventoryLoop ::
  "'srv env \<Rightarrow> inventory_row list \<Rightarrow> store \<times> 'srv \<times> nat \<times> nat \<Rightarrow> store \<times> 'srv \<times> nat \<times> nat" where
  "syncInventoryLoop e [] acc = acc"
| "syncInventoryLoop e (item # rest) (st, srv, syncedCount, errorCount) =
     (case api_inventory_getById e (inv_id item) srv of
        (Inl (ApiError status), srv1) \<Rightarrow>
          (if status \<noteq> Some 404
           then syncInventoryLoop e rest (st, srv1, syncedCount, Suc errorCount)
           else (case api_inventory_create e (inv_fields item) srv1 of
                   (Inl err, srv2) \<Rightarrow>
                     syncInventoryLoop e rest (st, srv2, syncedCount, Suc errorCount)
                 | (Inr r, srv2) \<Rightarrow>
                     syncInventoryLoop e rest
                       (markInventoryItemSynced (inv_id item) st, srv2, Suc syncedCount, errorCount)))
      | (Inr found, srv1) \<Rightarrow>
          (case api_inventory_update e (inv_id item) (inv_fields item) srv1 of
             (Inl err, srv2) \<Rightarrow>
               syncInventoryLoop e rest (st, srv2, syncedCount, Suc errorCount)
           | (Inr r, srv2) \<Rightarrow>
               syncInventoryLoop e rest
                 (markInventoryItemSynced (inv_id item) st, srv2, Suc syncedCount, errorCount)))"

definition syncInventory :: "'srv env \<Rightarrow> string \<Rightarrow> store \<times> 'srv \<Rightarrow> sync_result \<times> store \<times> 'srv" where
  "syncInventory e now w =
     (let st = fst w; srv = snd w; unsyncedItems = getUnsyncedInventoryItems st in
      if unsyncedItems = [] then (\<lparr>success = True, synced = 0\<rparr>, st, srv)
      else (case syncInventoryLoop e unsyncedItems (st, srv, 0, 0) of
              (st', srv', syncedCount, errorCount) \<Rightarrow>
                (\<lparr>success = (errorCount = 0), synced = syncedCount\<rparr>, st', srv')))"

section \<open>The sync cycle (services/sync.ts, syncAll)\<close>

text \<open>
  \<open>saveSyncToHistory\<close>: the new entry lists the entity types whose count is positive,
  goes to the front of the stored list, and the list is cut to its first 20 entries.
\<close>

definition saveSyncToHistory :: "'srv env \<Rightarrow> string \<Rightarrow> nat \<Rightarrow> nat \<Rightarrow> nat \<Rightarrow> nat \<Rightarrow> store \<Rightarrow> store" where
  "saveSyncToHistory e now categoriesSynced itemsSynced billsSynced inventorySynced st =
     (let newEntry = \<lparr>he_id = now, he_date = formatDisplayDateTime e now, he_timestamp = now,
                       he_items = filter (\<lambda>item. snd item > 0)
                         [(''Categories'', categoriesSynced), (''Items'', itemsSynced),
                          (''Bills'', billsSynced), (''Inventory'', inventorySynced)]\<rparr>;
          history = newEntry # sync_history st
      in st\<lparr>sync_history := (if length history > 20 then take 20 history else history)\<rparr>)"

record sync_all_result =
  all_success :: bool
  categoriesSynced :: nat
  itemsSynced :: nat
  billsSynced :: nat
  inventorySynced :: nat

definition syncAll :: "'srv env \<Rightarrow> string \<Rightarrow> store \<times> 'srv \<Rightarrow> sync_all_result \<times> store \<times> 'srv" where
  "syncAll e now w =
     (if \<not> getNetworkStatus e
      then (\<lparr>all_success = False, categoriesSynced = 0, itemsSynced = 0, billsSynced = 0,
              inventorySynced = 0\<rparr>, fst w, snd w)
      else
        (let c = syncCategories e now w;
             i = syncItems e now (snd c);
             b = syncBills e now (snd i);
             v = syncInventory e now (snd b);
             categoriesResult = fst c; itemsResult = fst i;
             billsResult = fst b; inventoryResult = fst v;
             st = fst (snd v); srv = snd (snd v);
             ok = (success categoriesResult \<and> success itemsResult \<and>
                   success billsResult \<and> success inventoryResult);
             st' = (if ok \<and> (synced categoriesResult > 0 \<or> synced itemsResult > 0 \<or>
                              synced billsResult > 0 \<or> synced inventoryResult > 0)
                    then (saveSyncToHistory e now (synced categoriesResult) (synced itemsResult)
                            (synced billsResult) (synced inventoryResult) st)
                         \<lparr>last_sync_time := Some now\<rparr>
                    else st)
         in (\<lparr>all_success = ok,
               categoriesSynced = synced categoriesResult,
               itemsSynced = synced itemsResult,
               billsSynced = synced billsResult,
               inventorySynced = synced inventoryResult\<rparr>, st', srv)))"


section \<open>Initial sync: the download of recent bills (services/sync.ts, initialSync)\<close>

text \<open>
  The row that the INSERT of \<open>initialSync\<close> writes for a downloaded bill. The statement
  lists 30 columns and 30 placeholders and passes 29 values: no value is written for
  \<open>notes\<close>, so from that column on each column is bound to the value written for the
  next one. Of the columns kept here, \<open>device_id\<close> receives \<open>bill.vendor_id || null\<close>,
  \<open>is_synced\<close> receives \<open>bill.timestamp\<close>, \<open>created_at\<close> receives \<open>now\<close> and the
  last column, \<open>updated_at\<close>, is left unbound, which SQLite reads as NULL; the first 24
  columns receive their own values.
\<close>

definition downloaded_bill_row :: "string \<Rightarrow> server_bill \<Rightarrow> bill_row" where
  "downloaded_bill_row now bill =
     \<lparr>b_id = sb_id bill,
       b_invoice_number = Some (sb_invoice_number bill),
       b_bill_number =
         (case sb_bill_number bill of
            None \<Rightarrow> sb_invoice_number bill
          | Some n \<Rightarrow> if n = [] then sb_invoice_number bill else n),
       b_items = sb_items bill,
       b_device_id =
         (case sb_vendor_id bill of
            None \<Rightarrow> None
          | Some v \<Rightarrow> if v = [] then None else Some v),
       b_is_synced = SqlText (sb_timestamp bill),
       b_created_at = now,
       b_updated_at = SqlNull\<rparr>"

text \<open>\<open>SELECT id FROM bills WHERE invoice_number = ?\<close>\<close>

definition select_by_invoice :: "string \<Rightarrow> store \<Rightarrow> bill_row list" where
  "select_by_invoice invoice st = filter (\<lambda>r. b_invoice_number r = Some invoice) (bills st)"

text \<open>
  The constraints of the \<open>bills\<close> table (database/schema.ts; \<open>DBBill\<close> agrees) on the
  columns kept here: \<open>id TEXT PRIMARY KEY\<close>, \<open>bill_number TEXT NOT NULL UNIQUE\<close>,
  \<open>updated_at TEXT NOT NULL\<close>. SQLite accepts the insertion of \<open>r\<close> into a table
  holding \<open>rows\<close> when they hold. (\<open>items\<close> and \<open>created_at\<close>, also \<open>NOT NULL\<close>,
  are never null here.)
\<close>

definition bills_insert_ok :: "bill_row list \<Rightarrow> bill_row \<Rightarrow> bool" where
  "bills_insert_ok rows r \<longleftrightarrow>
     b_id r \<notin> set (map b_id rows) \<and>
     b_bill_number r \<notin> set (map b_bill_number rows) \<and>
     b_updated_at r \<noteq> SqlNull"

text \<open>
  \<open>for (const bill of billsResponse.bills)\<close>. An INSERT that SQLite rejects throws;
  the \<open>catch\<close> around the loop logs and goes on after the loop, so the bills that follow
  are not looked at and the rows written so far stay. The boolean tells whether the loop
  ran to its end.
\<close>

fun insertDownloadedBills :: "string \<Rightarrow> server_bill list \<Rightarrow> store \<Rightarrow> store \<times> bool" where
  "insertDownloadedBills now [] st = (st, True)"
| "insertDownloadedBills now (bill # rest) st =
     (let existing = select_by_invoice (sb_invoice_number bill) st in
      if existing = [] then
        (if bills_insert_ok (bills st) (downloaded_bill_row now bill)
         then insertDownloadedBills now rest
                (st\<lparr>bills := bills st @ [downloaded_bill_row now bill]\<rparr>)
         else (st, False))
      else insertDownloadedBills now rest st)"

text \<open>The \<open>try\<close> block "Download recent bills history" of \<open>initialSync\<close>:
  \<open>API.bills.download({limit: 100})\<close>, then the loop. A rejected download is logged
  and changes nothing.\<close>

definition initialSync_bills :: "'srv env \<Rightarrow> string \<Rightarrow> store \<times> 'srv \<Rightarrow> store \<times> 'srv" where
  "initialSync_bills e now w =
     (case api_bills_download e 100 (snd w) of
        (Inl err, srv') \<Rightarrow> (fst w, srv')
      | (Inr downloaded, srv') \<Rightarrow> (fst (insertDownloadedBills now downloaded (fst w)), srv'))"

section \<open>Notions used in the statements\<close>

text \<open>Every operation of \<open>batch\<close> has its row in the queue, and every row carrying the
  id of an operation of the batch is marked synced at \<open>now\<close>.\<close>

definition batch_marked :: "sync_queue_row list \<Rightarrow> string \<Rightarrow> store \<Rightarrow> bool" where
  "batch_marked batch now st \<longleftrightarrow>
     list_all (\<lambda>op. list_ex (\<lambda>r. q_id r = q_id op) (sync_queue st)) batch \<and>
     list_all (\<lambda>r. q_id r \<in> q_id ` set batch \<longrightarrow> q_synced r \<and> q_synced_at r = Some now)
       (sync_queue st)"

text \<open>What a queue drain for \<open>et\<close> can leave in \<open>sync_queue\<close>: the queue as it was, or
  the queue with the rows of its batch marked.\<close>

definition queue_after :: "entity_type \<Rightarrow> string \<Rightarrow> store \<Rightarrow> sync_queue_row list \<Rightarrow> bool" where
  "queue_after et now st q \<longleftrightarrow>
     q = sync_queue st \<or>
     q = map (\<lambda>r. if q_id r \<in> q_id ` set (select_pending et st)
                  then r\<lparr>q_synced := True, q_synced_at := Some now\<rparr> else r) (sync_queue st)"

text \<open>Operations queued one after the other, each with the clock reading taken by its
  \<open>queueOperation\<close>.\<close>

definition enqueue_all :: "(sync_operation \<times> string) list \<Rightarrow> store \<Rightarrow> store" where
  "enqueue_all ops st = fold (\<lambda>x. queueOperation (fst x) (snd x)) ops st"

text \<open>\<open>created_at\<close> ascending, ties broken by \<open>id\<close> ascending.\<close>

definition queue_order :: "sync_queue_row \<Rightarrow> sync_queue_row \<Rightarrow> bool" where
  "queue_order a b \<longleftrightarrow>
     q_created_at a < q_created_at b \<or> (q_created_at a = q_created_at b \<and> q_id a < q_id b)"

text \<open>The operation a queue row was written from.\<close>

definition row_operation :: "sync_queue_row \<Rightarrow> sync_operation" where
  "row_operation r = \<lparr>so_operation_type = q_operation_type r, so_entity_type = q_entity_type r,
     so_entity_id = q_entity_id r, so_data = q_data r, so_timestamp = q_timestamp r\<rparr>"

text \<open>
  What holds while the device stays offline after an offline notification at \<open>t0\<close> in
  state \<open>s0\<close>: \<open>offlineTimestamp\<close> is \<open>t0\<close> or was cleared by a callback, no timer
  was armed and no handle was handed out.
\<close>

definition offline_inv :: "net_state \<Rightarrow> int \<Rightarrow> net_state \<Rightarrow> bool" where
  "offline_inv s0 t0 s \<longleftrightarrow>
     \<not> isOnline s \<and> (offlineTimestamp s = None \<or> offlineTimestamp s = Some t0) \<and>
     nextHandle s = nextHandle s0 \<and> syncTimeout s = syncTimeout s0 \<and>
     set (timers s) \<subseteq> set (timers s0)"

text \<open>At most one timer is armed, and it is the one \<open>syncTimeout\<close> refers to.\<close>

definition single_timer :: "net_state \<Rightarrow> bool" where
  "single_timer s \<longleftrightarrow>
     nextHandle s \<noteq> 0 \<and> length (timers s) \<le> 1 \<and>
     list_all (\<lambda>t. syncTimeout s = Some (fst t) \<and> fst t \<noteq> 0) (timers s)"

section \<open>Concrete collaborators, stores and runs\<close>

text \<open>A store with empty tables and nothing in AsyncStorage.\<close>

definition empty_store :: store where
  "empty_store = \<lparr>sync_queue = [], categories = [], items = [], bills = [], inventory_items = [],
     user_data = None, sync_history = [], last_sync_time = None\<rparr>"

text \<open>
  A reachable server that accepts every request, echoes nothing and knows no inventory
  item.
\<close>

definition server_up :: "unit env" where
  "server_up =
     \<lparr>api_categories_sync = (\<lambda>payload srv. (Inr None, srv)),
       api_items_sync = (\<lambda>payload srv. (Inr None, srv)),
       api_bills_sync = (\<lambda>payload srv. (Inr (), srv)),
       api_bills_download = (\<lambda>limit srv. (Inr [], srv)),
       api_inventory_getById = (\<lambda>ident srv. (Inl (ApiError (Some 404)), srv)),
       api_inventory_update = (\<lambda>ident fields srv. (Inr (), srv)),
       api_inventory_create = (\<lambda>fields srv. (Inr (), srv)),
       net_isConnected = Some True,
       json_parse = Some,
       js_truthy = (\<lambda>v. True),
       formatDisplayDateTime = (\<lambda>t. t),
       import_imageCache = True\<rparr>"

text \<open>The same server answering the item batch with status 500.\<close>

definition items_down :: "unit env" where
  "items_down = server_up\<lparr>api_items_sync := (\<lambda>payload srv. (Inl (ApiError (Some 500)), srv))\<rparr>"

text \<open>A server whose category and item batch calls time out (no response).\<close>

definition server_down :: "unit env" where
  "server_down = server_up
     \<lparr>api_categories_sync := (\<lambda>payload srv. (Inl (ApiError None), srv)),
       api_items_sync := (\<lambda>payload srv. (Inl (ApiError None), srv))\<rparr>"

text \<open>\<open>NetInfo.fetch()\<close> reports no connection.\<close>

definition no_network :: "unit env" where
  "no_network = server_up\<lparr>net_isConnected := Some False\<rparr>"

text \<open>A server that accepts every request and keeps the category and item batches it
  receives, in the order of arrival.\<close>

definition recording_server :: "sync_item list list env" where
  "recording_server =
     \<lparr>api_categories_sync = (\<lambda>payload received. (Inr None, received @ [payload])),
       api_items_sync = (\<lambda>payload received. (Inr None, received @ [payload])),
       api_bills_sync = (\<lambda>payload received. (Inr (), received)),
       api_bills_download = (\<lambda>limit received. (Inr [], received)),
       api_inventory_getById = (\<lambda>ident received. (Inl (ApiError (Some 404)), received)),
       api_inventory_update = (\<lambda>ident fields received. (Inr (), received)),
       api_inventory_create = (\<lambda>fields received. (Inr (), received)),
       net_isConnected = Some True,
       json_parse = Some,
       js_truthy = (\<lambda>v. True),
       formatDisplayDateTime = (\<lambda>t. t),
       import_imageCache = True\<rparr>"

definition op_category :: sync_operation where
  "op_category = \<lparr>so_operation_type = OpCreate, so_entity_type = Category, so_entity_id = ''c1'',
     so_data = ''{}'', so_timestamp = ''t1''\<rparr>"

definition op_item :: sync_operation where
  "op_item = \<lparr>so_operation_type = OpUpdate, so_entity_type = Item, so_entity_id = ''i1'',
     so_data = ''{}'', so_timestamp = ''t2''\<rparr>"

text \<open>One category operation and one item operation, queued in this order.\<close>

definition two_pending :: store where
  "two_pending = queueOperation op_item ''t2'' (queueOperation op_category ''t1'' empty_store)"

text \<open>
  A logged-in device with one category operation and one item operation queued, one
  bill and one inventory item not yet synced.
\<close>

definition busy_store :: store where
  "busy_store = two_pending
     \<lparr>bills := [\<lparr>b_id = ''b1'', b_invoice_number = Some ''INV-1'', b_bill_number = ''BN-1'',
                  b_items = ''[]'', b_device_id = Some ''d1'', b_is_synced = SqlInt 0,
                  b_created_at = ''t0'', b_updated_at = SqlText ''t0''\<rparr>],
       inventory_items := [\<lparr>inv_id = ''s1'', inv_fields = ''{}'', inv_is_synced = False\<rparr>],
       user_data := Some ''{}''\<rparr>"

definition create_c1 :: sync_operation where
  "create_c1 = \<lparr>so_operation_type = OpCreate, so_entity_type = Category, so_entity_id = ''c1'',
     so_data = ''{}'', so_timestamp = ''2024-03-01T10:00:00.500Z''\<rparr>"

definition update_c1 :: sync_operation where
  "update_c1 = \<lparr>so_operation_type = OpUpdate, so_entity_type = Category, so_entity_id = ''c1'',
     so_data = ''{}'', so_timestamp = ''2024-03-01T10:00:00.120Z''\<rparr>"

definition delete_c1 :: sync_operation where
  "delete_c1 = \<lparr>so_operation_type = OpDelete, so_entity_type = Category, so_entity_id = ''c1'',
     so_data = ''{}'', so_timestamp = ''2024-03-01T10:00:00.880Z''\<rparr>"

text \<open>The category \<open>c1\<close> is created, then updated; between the two the device clock
  was set back by 380 ms.\<close>

definition clock_set_back :: store where
  "clock_set_back =
     enqueue_all [(create_c1, ''2024-03-01T10:00:00.500Z''),
                  (update_c1, ''2024-03-01T10:00:00.120Z'')] empty_store"

text \<open>
  A queue in use: an item operation queued earlier and already synced (id 1), and the
  creation of category \<open>c1\<close> still pending (id 2).
\<close>

definition part_drained :: store where
  "part_drained = empty_store
     \<lparr>sync_queue :=
        [\<lparr>q_id = 1, q_operation_type = OpUpdate, q_entity_type = Item, q_entity_id = ''i1'',
          q_data = ''{}'', q_timestamp = ''2024-03-01T09:59:00.000Z'', q_retry_count = 0,
          q_last_error = None, q_synced = True,
          q_synced_at = Some ''2024-03-01T09:59:30.000Z'',
          q_created_at = ''2024-03-01T09:59:00.000Z''\<rparr>,
         \<lparr>q_id = 2, q_operation_type = OpCreate, q_entity_type = Category, q_entity_id = ''c1'',
          q_data = ''{}'', q_timestamp = ''2024-03-01T10:00:00.500Z'', q_retry_count = 0,
          q_last_error = None, q_synced = False, q_synced_at = None,
          q_created_at = ''2024-03-01T10:00:00.500Z''\<rparr>]\<rparr>"

text \<open>The deletion of \<open>c1\<close> and then an update of item \<open>i1\<close>, queued 380 ms and
  500 ms after the creation of \<open>c1\<close>.\<close>

definition later_ops :: "(sync_operation \<times> string) list" where
  "later_ops = [(delete_c1, ''2024-03-01T10:00:00.880Z''), (op_item, ''2024-03-01T10:00:01.000Z'')]"

text \<open>A server that accepts the category batch and answers with a list of snapshots
  whose only element is null.\<close>

definition echo_unreadable :: "unit env" where
  "echo_unreadable = server_up\<lparr>api_categories_sync := (\<lambda>payload srv. (Inr (Some [None]), srv))\<rparr>"

text \<open>A bill on the server, and a server whose download returns it every time.\<close>

definition remote_bill :: server_bill where
  "remote_bill = \<lparr>sb_id = ''b7'', sb_invoice_number = ''INV-7'', sb_bill_number = None,
     sb_items = ''[]'', sb_device_id = Some ''d1'', sb_vendor_id = Some ''v1'',
     sb_timestamp = ''2024-03-01T09:00:00.000Z''\<rparr>"

definition server_with_bill :: "unit env" where
  "server_with_bill = server_up\<lparr>api_bills_download := (\<lambda>limit srv. (Inr [remote_bill], srv))\<rparr>"

text \<open>
  Offline at 1000, online at 5000 (4000 ms offline: a callback is scheduled for 7000),
  offline again at 6000, the callback runs at 7000 and its \<open>syncAll\<close> settles, online
  again at 20000 (14000 ms offline).
\<close>

definition restore_after_callback :: "net_event list" where
  "restore_after_callback =
     [NetInfo (Some False) 1000, NetInfo (Some True) 5000, NetInfo (Some False) 6000,
      TimerFires 1 7000, SyncSettles, NetInfo (Some True) 20000]"

section \<open>Properties of the network monitor\<close>

lemma listener_still_offline:
  "\<not> isOnline s \<Longrightarrow> c \<noteq> Some True \<Longrightarrow> listener c now s = s"
  by (cases c) (simp_all add: listener_def)

lemma offline_inv_first:
  "isOnline s \<Longrightarrow> offline_inv s t0 (listener (Some False) t0 s)"
  by (simp add: offline_inv_def listener_def)

lemma offline_inv_step:
  "offline_inv s0 t0 s \<Longrightarrow> stays_offline ev \<Longrightarrow> offline_inv s0 t0 (net_step s ev)"
proof (cases ev)
  case (NetInfo c now)
  assume "offline_inv s0 t0 s" "stays_offline ev"
  with NetInfo show ?thesis
    by (simp add: offline_inv_def listener_still_offline)
next
  case (TimerFires h now)
  assume "offline_inv s0 t0 s"
  with TimerFires show ?thesis
    by (auto simp: offline_inv_def timerFires_def)
next
  case SyncSettles
  assume "offline_inv s0 t0 s"
  with SyncSettles show ?thesis
    by (auto simp: offline_inv_def syncSettles_def)
qed

lemma offline_inv_run:
  "offline_inv s0 t0 s \<Longrightarrow> list_all stays_offline evs \<Longrightarrow>
   offline_inv s0 t0 (foldl net_step s evs)"
  by (induction evs arbitrary: s) (simp_all add: offline_inv_step)

lemma offline_inv_last:
  "offline_inv s0 t0 s \<Longrightarrow> t1 - t0 \<le> 3000 \<Longrightarrow>
   (let s' = listener (Some True) t1 s in
      offlineTimestamp s' = None \<and> nextHandle s' = nextHandle s0 \<and>
      syncTimeout s' = syncTimeout s0 \<and> set (timers s') \<subseteq> set (timers s0) \<and> isOnline s')"
  by (auto simp: offline_inv_def listener_def Let_def split: if_splits)

text \<open>
  C5. Flap suppression. The device is online, goes offline when the clock reads \<open>t0\<close>,
  stays offline through any further notifications and timer callbacks, and comes back
  online when the clock reads \<open>t1\<close>, at most 3000 ms later. Then the listener arms no
  timer (no handle is handed out, \<open>syncTimeout\<close> is the one before, the armed timers
  are among those armed before), so no sync cycle is scheduled by this sequence, and
  \<open>offlineTimestamp\<close> is null afterwards.
\<close>

theorem flap_suppressed:
  assumes "isOnline s" and "t1 - t0 \<le> 3000" and "list_all stays_offline mid"
  shows "let s' = net_run ([NetInfo (Some False) t0] @ mid @ [NetInfo (Some True) t1]) s in
           offlineTimestamp s' = None \<and> nextHandle s' = nextHandle s \<and>
           syncTimeout s' = syncTimeout s \<and> set (timers s') \<subseteq> set (timers s) \<and> isOnline s'"
proof -
  have "offline_inv s t0 (foldl net_step (listener (Some False) t0 s) mid)"
    using assms offline_inv_first offline_inv_run by blast
  from offline_inv_last [OF this assms(2)] show ?thesis
    by (simp add: net_run_def)
qed

theorem flap_suppressed_witness:
  "isOnline initial_net \<and> (2200::int) - 1000 \<le> 3000 \<and>
   list_all stays_offline [NetInfo None 1500, SyncSettles] \<and>
   (let s' = net_run ([NetInfo (Some False) 1000] @ [NetInfo None 1500, SyncSettles] @
                      [NetInfo (Some True) 2200]) initial_net in
      offlineTimestamp s' = None \<and> nextHandle s' = nextHandle initial_net \<and>
      syncTimeout s' = syncTimeout initial_net \<and>
      set (timers s') \<subseteq> set (timers initial_net) \<and> isOnline s')"
  using flap_suppressed [of initial_net 2200 1000 "[NetInfo None 1500, SyncSettles]"]
  by (simp add: initial_net_def)

text \<open>
  Debounce. From a state where at most one timer is armed, a restoration the listener
  accepts cancels the armed timer and arms exactly one, due 2000 ms later; and in every
  run at most one timer is armed, so the callbacks of two timers never both fire for one
  restoration.
\<close>

lemma single_timer_initial: "single_timer initial_net"
  by (simp add: single_timer_def initial_net_def)

lemma qualifying_transition_schedules_one:
  assumes "single_timer s" and "\<not> isOnline s" and "offlineTimestamp s = Some t0" and "t0 \<noteq> 0"
      and "now - t0 > 3000"
  shows "timers (listener (Some True) now s) = [(nextHandle s, now + 2000)] \<and>
         syncTimeout (listener (Some True) now s) = Some (nextHandle s)"
proof (cases "timers s")
  case Nil
  with assms show ?thesis
    by (auto simp: listener_def setTimeout_def clearTimeout_def Let_def split: option.splits)
next
  case (Cons t ts)
  with assms(1) have ts: "ts = []" and h: "syncTimeout s = Some (fst t)" "fst t \<noteq> 0"
    by (simp_all add: single_timer_def)
  with assms Cons show ?thesis
    by (simp add: listener_def setTimeout_def clearTimeout_def Let_def)
qed

lemma single_timer_listener: "single_timer s \<Longrightarrow> single_timer (listener c now s)"
proof (cases "timers s")
  case Nil
  assume "single_timer s"
  with Nil show ?thesis
    by (auto simp: single_timer_def listener_def setTimeout_def clearTimeout_def Let_def
          split: option.splits)
next
  case (Cons t ts)
  assume a: "single_timer s"
  with Cons have ts: "ts = []" and h: "syncTimeout s = Some (fst t)" "fst t \<noteq> 0"
    by (simp_all add: single_timer_def)
  with a Cons show ?thesis
    by (auto simp: single_timer_def listener_def setTimeout_def clearTimeout_def Let_def
          split: option.splits)
qed

lemma single_timer_step: "single_timer s \<Longrightarrow> single_timer (net_step s ev)"
proof (cases ev)
  case (NetInfo c now)
  assume "single_timer s"
  with NetInfo show ?thesis by (simp add: single_timer_listener)
next
  case (TimerFires h now)
  assume "single_timer s"
  with TimerFires show ?thesis
    by (cases "timers s") (auto simp: single_timer_def timerFires_def)
next
  case SyncSettles
  assume "single_timer s"
  with SyncSettles show ?thesis
    by (auto simp: single_timer_def syncSettles_def)
qed

lemma at_most_one_timer_armed:
  "single_timer s \<Longrightarrow> length (timers (net_run evs s)) \<le> 1"
proof -
  have "single_timer s \<Longrightarrow> single_timer (foldl net_step s evs)"
    by (induction evs arbitrary: s) (simp_all add: single_timer_step)
  then show "single_timer s \<Longrightarrow> length (timers (net_run evs s)) \<le> 1"
    by (simp add: net_run_def single_timer_def)
qed

text \<open>
  C6. A restoration that schedules nothing. The claim asks for one scheduled sync
  cycle after every offline interval longer than 3000 ms. In the run \<open>restore_after_callback\<close> the
  device is offline from 6000 to 20000, that is 14000 ms, and comes back online. The
  callback scheduled by the restoration at 5000 ran in between and its \<open>finally\<close> block
  cleared the \<open>offlineTimestamp\<close> recorded at 6000, so the listener computes an offline
  duration of 0 at 20000: no timer is armed, and the only handle ever handed out is that
  of the first restoration.
\<close>

theorem restore_after_callback_not_scheduled:
  "net_run restore_after_callback initial_net =
     \<lparr>isOnline = True, offlineTimestamp = None, syncTimeout = Some 1,
       timers = [], nextHandle = 2, running = 0\<rparr>"
  by (simp add: restore_after_callback_def net_run_def initial_net_def listener_def
        timerFires_def syncSettles_def setTimeout_def clearTimeout_def)

section \<open>Properties of the queue drains\<close>

lemma echoCategories_shape:
  "\<exists>cs. fst (echoCategories xs now (st\<lparr>categories := c0\<rparr>)) = st\<lparr>categories := cs\<rparr>"
proof (induction xs arbitrary: c0)
  case Nil
  show ?case by (rule exI [of _ c0]) simp
next
  case (Cons x xs)
  show ?case
  proof (cases x)
    case None
    show ?thesis by (rule exI [of _ c0]) (simp add: None)
  next
    case (Some category)
    show ?thesis using Cons.IH by (simp add: Some)
  qed
qed

lemma applyCategoryEcho_shape:
  "\<exists>cs. fst (applyCategoryEcho response now st) = st\<lparr>categories := cs\<rparr>"
proof (cases response)
  case None
  show ?thesis by (rule exI [of _ "categories st"]) (simp add: applyCategoryEcho_def None)
next
  case (Some xs)
  from echoCategories_shape [where xs = xs and now = now and st = st and ?c0.0 = "categories st"] Some
  show ?thesis by (simp add: applyCategoryEcho_def)
qed

lemma echoItems_shape:
  "\<exists>cs. fst (echoItems xs now (st\<lparr>items := c0\<rparr>)) = st\<lparr>items := cs\<rparr>"
proof (induction xs arbitrary: c0)
  case Nil
  show ?case by (rule exI [of _ c0]) simp
next
  case (Cons x xs)
  show ?case
  proof (cases x)
    case None
    show ?thesis by (rule exI [of _ c0]) (simp add: None)
  next
    case (Some item)
    show ?thesis using Cons.IH by (simp add: Some)
  qed
qed

lemma applyItemEcho_shape:
  "\<exists>cs. fst (applyItemEcho e response now st) = st\<lparr>items := cs\<rparr>"
proof -
  have same: "\<exists>cs. st = st\<lparr>items := cs\<rparr>"
    by (rule exI [of _ "items st"]) simp
  show ?thesis
  proof (cases response)
    case None
    with same show ?thesis by (simp add: applyItemEcho_def)
  next
    case (Some xs)
    from echoItems_shape [where xs = xs and now = now and st = st and ?c0.0 = "items st"] same Some
    show ?thesis by (simp add: applyItemEcho_def)
  qed
qed

lemma applyCategoryEcho_frame:
  "sync_queue (fst (applyCategoryEcho response now st)) = sync_queue st \<and>
   items (fst (applyCategoryEcho response now st)) = items st \<and>
   bills (fst (applyCategoryEcho response now st)) = bills st \<and>
   inventory_items (fst (applyCategoryEcho response now st)) = inventory_items st \<and>
   user_data (fst (applyCategoryEcho response now st)) = user_data st \<and>
   sync_history (fst (applyCategoryEcho response now st)) = sync_history st \<and>
   last_sync_time (fst (applyCategoryEcho response now st)) = last_sync_time st"
proof -
  obtain cs where "fst (applyCategoryEcho response now st) = st\<lparr>categories := cs\<rparr>"
    using applyCategoryEcho_shape by blast
  then show ?thesis by simp
qed

lemma applyItemEcho_frame:
  "sync_queue (fst (applyItemEcho e response now st)) = sync_queue st \<and>
   categories (fst (applyItemEcho e response now st)) = categories st \<and>
   bills (fst (applyItemEcho e response now st)) = bills st \<and>
   inventory_items (fst (applyItemEcho e response now st)) = inventory_items st \<and>
   user_data (fst (applyItemEcho e response now st)) = user_data st \<and>
   sync_history (fst (applyItemEcho e response now st)) = sync_history st \<and>
   last_sync_time (fst (applyItemEcho e response now st)) = last_sync_time st"
proof -
  obtain cs where "fst (applyItemEcho e response now st) = st\<lparr>items := cs\<rparr>"
    using applyItemEcho_shape by blast
  then show ?thesis by simp
qed

lemma markAllSynced_shape:
  "markAllSynced ops now st =
     st\<lparr>sync_queue := map (\<lambda>r. if q_id r \<in> q_id ` set ops
                                 then r\<lparr>q_synced := True, q_synced_at := Some now\<rparr> else r)
                            (sync_queue st)\<rparr>"
proof (induction ops arbitrary: st)
  case Nil
  then show ?case by (simp add: markAllSynced_def)
next
  case (Cons op ops)
  have "markAllSynced (op # ops) now st = markAllSynced ops now (markOperationSynced (q_id op) now st)"
    by (simp add: markAllSynced_def)
  then show ?case
    by (simp add: Cons.IH markOperationSynced_def)
qed

lemma sync_queue_markAllSynced:
  "sync_queue (markAllSynced ops now st) =
     map (\<lambda>r. if q_id r \<in> q_id ` set ops then r\<lparr>q_synced := True, q_synced_at := Some now\<rparr> else r)
         (sync_queue st)"
proof (induction ops arbitrary: st)
  case Nil
  then show ?case by (simp add: markAllSynced_def)
next
  case (Cons op ops)
  have "markAllSynced (op # ops) now st = markAllSynced ops now (markOperationSynced (q_id op) now st)"
    by (simp add: markAllSynced_def)
  then show ?case
    by (simp add: Cons.IH markOperationSynced_def)
qed

lemma marked_rows:
  "list_all (\<lambda>r. q_id r \<in> ids \<longrightarrow> q_synced r \<and> q_synced_at r = Some now)
     (map (\<lambda>r. if q_id r \<in> ids then r\<lparr>q_synced := True, q_synced_at := Some now\<rparr> else r) rows)"
  by (induction rows) simp_all


lemma syncCategories_outcome:
  assumes "select_pending Category st \<noteq> []"
      and "syncPayload e (select_pending Category st) = Some payload"
  shows "syncCategories e now (st, srv) =
           (case api_categories_sync e payload srv of
              (Inl err, srv') \<Rightarrow> (drain_failed, st, srv')
            | (Inr response, srv') \<Rightarrow>
                (let echoed = applyCategoryEcho response now
                                (markAllSynced (select_pending Category st) now st) in
                 if snd echoed
                 then (\<lparr>success = True, synced = length (select_pending Category st)\<rparr>,
                       fst echoed, srv')
                 else (drain_failed, fst echoed, srv')))"
  using assms by (simp add: syncCategories_def Let_def)

lemma syncItems_outcome:
  assumes "select_pending Item st \<noteq> []"
      and "syncPayload e (select_pending Item st) = Some payload"
  shows "syncItems e now (st, srv) =
           (case api_items_sync e payload srv of
              (Inl err, srv') \<Rightarrow> (drain_failed, st, srv')
            | (Inr response, srv') \<Rightarrow>
                (let echoed = applyItemEcho e response now
                                (markAllSynced (select_pending Item st) now st) in
                 if snd echoed
                 then (\<lparr>success = True, synced = length (select_pending Item st)\<rparr>,
                       fst echoed, srv')
                 else (drain_failed, fst echoed, srv')))"
  using assms by (simp add: syncItems_def Let_def)

lemma syncCategories_queue:
  "queue_after Category now st (sync_queue (fst (snd (syncCategories e now (st, srv)))))"
  by (simp add: syncCategories_def Let_def queue_after_def applyCategoryEcho_frame
        markAllSynced_shape split: option.splits prod.splits sum.splits)

lemma syncItems_queue:
  "queue_after Item now st (sync_queue (fst (snd (syncItems e now (st, srv)))))"
  by (simp add: syncItems_def Let_def queue_after_def applyItemEcho_frame
        markAllSynced_shape split: option.splits prod.splits sum.splits)

lemma queue_after_retry_fields:
  assumes "queue_after et now st q"
  shows "map q_retry_count q = map q_retry_count (sync_queue st) \<and>
         map q_last_error q = map q_last_error (sync_queue st)"
  using assms by (auto simp: queue_after_def)

lemma select_pending_cong:
  "sync_queue st' = sync_queue st \<Longrightarrow> select_pending et st' = select_pending et st"
  by (simp add: select_pending_def)

lemma select_pending_marked:
  assumes "sync_queue st' =
     map (\<lambda>r. if q_id r \<in> q_id ` set (select_pending et st)
               then r\<lparr>q_synced := True, q_synced_at := Some now\<rparr> else r) (sync_queue st)"
  shows "select_pending et st' = []"
proof -
  have "set (select_pending et st') = {}"
    using assms by (auto simp: select_pending_def)
  then show ?thesis by simp
qed

lemma select_pending_subset: "set (select_pending et st) \<subseteq> set (sync_queue st)"
  by (auto simp: select_pending_def)

lemma batch_marked_after:
  assumes "sync_queue st' =
     map (\<lambda>r. if q_id r \<in> q_id ` set (select_pending et st)
               then r\<lparr>q_synced := True, q_synced_at := Some now\<rparr> else r) (sync_queue st)"
  shows "batch_marked (select_pending et st) now st'"
proof -
  have "list_all (\<lambda>op. list_ex (\<lambda>r. q_id r = q_id op) (sync_queue st')) (select_pending et st)"
    unfolding list_all_iff list_ex_iff
  proof
    fix op assume "op \<in> set (select_pending et st)"
    then have "op \<in> set (sync_queue st)" using select_pending_subset by blast
    then have mem: "(\<lambda>r. if q_id r \<in> q_id ` set (select_pending et st)
               then r\<lparr>q_synced := True, q_synced_at := Some now\<rparr> else r) op \<in> set (sync_queue st')"
      unfolding assms set_map by (rule imageI)
    have "q_id ((\<lambda>r. if q_id r \<in> q_id ` set (select_pending et st)
               then r\<lparr>q_synced := True, q_synced_at := Some now\<rparr> else r) op) = q_id op"
      by simp
    with mem show "\<exists>r\<in>set (sync_queue st'). q_id r = q_id op"
      by blast
  qed
  moreover have "list_all (\<lambda>r. q_id r \<in> q_id ` set (select_pending et st) \<longrightarrow> q_synced r \<and> q_synced_at r = Some now) (sync_queue st')"
    unfolding assms by (rule marked_rows)
  ultimately show ?thesis by (simp add: batch_marked_def)
qed


text \<open>
  C1. All-or-nothing marking. When the category (resp. item) drain has a batch and
  submits it, a successful call leaves every operation of the batch marked synced with
  \<open>synced_at\<close> set, and none of them pending; a rejected call leaves the queue as it
  was, so that all of them are pending for the next cycle.
\<close>

theorem batch_marking_all_or_nothing:
  fixes e :: "'srv env"
  shows
  "(select_pending Category st \<noteq> [] \<and> syncPayload e (select_pending Category st) = Some pc \<longrightarrow>
      (let st' = fst (snd (syncCategories e now (st, srv))) in
       case fst (api_categories_sync e pc srv) of
         Inr response \<Rightarrow>
           batch_marked (select_pending Category st) now st' \<and> select_pending Category st' = []
       | Inl err \<Rightarrow>
           sync_queue st' = sync_queue st \<and>
           select_pending Category st' = select_pending Category st)) \<and>
   (select_pending Item st \<noteq> [] \<and> syncPayload e (select_pending Item st) = Some pi \<longrightarrow>
      (let st' = fst (snd (syncItems e now (st, srv))) in
       case fst (api_items_sync e pi srv) of
         Inr response \<Rightarrow>
           batch_marked (select_pending Item st) now st' \<and> select_pending Item st' = []
       | Inl err \<Rightarrow>
           sync_queue st' = sync_queue st \<and>
           select_pending Item st' = select_pending Item st))"
proof (intro conjI impI)
  assume h: "select_pending Category st \<noteq> [] \<and> syncPayload e (select_pending Category st) = Some pc"
  obtain outcome srv' where call: "api_categories_sync e pc srv = (outcome, srv')"
    by (cases "api_categories_sync e pc srv")
  show "let st' = fst (snd (syncCategories e now (st, srv))) in
       case fst (api_categories_sync e pc srv) of
         Inr response \<Rightarrow>
           batch_marked (select_pending Category st) now st' \<and> select_pending Category st' = []
       | Inl err \<Rightarrow>
           sync_queue st' = sync_queue st \<and>
           select_pending Category st' = select_pending Category st"
  proof (cases outcome)
    case (Inl err)
    with h call show ?thesis
      by (simp add: syncCategories_outcome [of st e pc])
  next
    case (Inr response)
    with h call have q: "sync_queue (fst (snd (syncCategories e now (st, srv)))) =
        map (\<lambda>r. if q_id r \<in> q_id ` set (select_pending Category st)
               then r\<lparr>q_synced := True, q_synced_at := Some now\<rparr> else r) (sync_queue st)"
      by (simp add: syncCategories_outcome [of st e pc] Let_def applyCategoryEcho_frame
            sync_queue_markAllSynced)
    from batch_marked_after [OF q] select_pending_marked [OF q] Inr call show ?thesis
      by simp
  qed
next
  assume h: "select_pending Item st \<noteq> [] \<and> syncPayload e (select_pending Item st) = Some pi"
  obtain outcome srv' where call: "api_items_sync e pi srv = (outcome, srv')"
    by (cases "api_items_sync e pi srv")
  show "let st' = fst (snd (syncItems e now (st, srv))) in
       case fst (api_items_sync e pi srv) of
         Inr response \<Rightarrow>
           batch_marked (select_pending Item st) now st' \<and> select_pending Item st' = []
       | Inl err \<Rightarrow>
           sync_queue st' = sync_queue st \<and>
           select_pending Item st' = select_pending Item st"
  proof (cases outcome)
    case (Inl err)
    with h call show ?thesis
      by (simp add: syncItems_outcome [of st e pi])
  next
    case (Inr response)
    with h call have q: "sync_queue (fst (snd (syncItems e now (st, srv)))) =
        map (\<lambda>r. if q_id r \<in> q_id ` set (select_pending Item st)
               then r\<lparr>q_synced := True, q_synced_at := Some now\<rparr> else r) (sync_queue st)"
      by (simp add: syncItems_outcome [of st e pi] Let_def applyItemEcho_frame
            sync_queue_markAllSynced)
    from batch_marked_after [OF q] select_pending_marked [OF q] Inr call show ?thesis
      by simp
  qed
qed


lemmas demo_defs = two_pending_def queueOperation_def empty_store_def op_category_def op_item_def
  next_rowid_def items_down_def server_up_def select_pending_def to_sync_item_def

theorem batch_marking_witness:
  "select_pending Category two_pending \<noteq> [] \<and>
   syncPayload items_down (select_pending Category two_pending) =
     Some [\<lparr>si_operation = OpCreate, si_data = Some ''{}'', si_id = None, si_timestamp = ''t1''\<rparr>] \<and>
   fst (api_categories_sync items_down
     [\<lparr>si_operation = OpCreate, si_data = Some ''{}'', si_id = None, si_timestamp = ''t1''\<rparr>] ()) = Inr None \<and>
   batch_marked (select_pending Category two_pending) ''t3''
     (fst (snd (syncCategories items_down ''t3'' (two_pending, ())))) \<and>
   select_pending Category (fst (snd (syncCategories items_down ''t3'' (two_pending, ())))) = [] \<and>
   select_pending Item two_pending \<noteq> [] \<and>
   syncPayload items_down (select_pending Item two_pending) =
     Some [\<lparr>si_operation = OpUpdate, si_data = Some ''{}'', si_id = None, si_timestamp = ''t2''\<rparr>] \<and>
   fst (api_items_sync items_down
     [\<lparr>si_operation = OpUpdate, si_data = Some ''{}'', si_id = None, si_timestamp = ''t2''\<rparr>] ()) =
     Inl (ApiError (Some 500)) \<and>
   sync_queue (fst (snd (syncItems items_down ''t3'' (two_pending, ())))) = sync_queue two_pending \<and>
   select_pending Item (fst (snd (syncItems items_down ''t3'' (two_pending, ())))) =
     select_pending Item two_pending"
proof -
  have c: "select_pending Category two_pending \<noteq> [] \<and>
     syncPayload items_down (select_pending Category two_pending) =
     Some [\<lparr>si_operation = OpCreate, si_data = Some ''{}'', si_id = None, si_timestamp = ''t1''\<rparr>]"
    by (simp add: demo_defs)
  have i: "select_pending Item two_pending \<noteq> [] \<and>
     syncPayload items_down (select_pending Item two_pending) =
     Some [\<lparr>si_operation = OpUpdate, si_data = Some ''{}'', si_id = None, si_timestamp = ''t2''\<rparr>]"
    by (simp add: demo_defs)
  have ac: "fst (api_categories_sync items_down
     [\<lparr>si_operation = OpCreate, si_data = Some ''{}'', si_id = None, si_timestamp = ''t1''\<rparr>] ()) = Inr None"
    by (simp add: items_down_def server_up_def)
  have ai: "fst (api_items_sync items_down
     [\<lparr>si_operation = OpUpdate, si_data = Some ''{}'', si_id = None, si_timestamp = ''t2''\<rparr>] ()) =
     Inl (ApiError (Some 500))"
    by (simp add: items_down_def)
  show ?thesis
    using batch_marking_all_or_nothing [of two_pending items_down
      "[\<lparr>si_operation = OpCreate, si_data = Some ''{}'', si_id = None, si_timestamp = ''t1''\<rparr>]"
      "''t3''" "()"
      "[\<lparr>si_operation = OpUpdate, si_data = Some ''{}'', si_id = None, si_timestamp = ''t2''\<rparr>]"]
      c i ac ai
    by (simp add: Let_def)
qed

section \<open>Upload order\<close>

lemma enqueue_all_snoc:
  "enqueue_all (ops @ [x]) st = queueOperation (fst x) (snd x) (enqueue_all ops st)"
  by (simp add: enqueue_all_def)


lemma fold_max_lower: "(m::nat) \<le> fold max ys m"
proof (induction ys arbitrary: m)
  case Nil
  then show ?case by simp
next
  case (Cons a ys)
  have "m \<le> max a m" by simp
  also have "\<dots> \<le> fold max ys (max a m)" by (rule Cons.IH)
  finally show ?case by simp
qed

lemma fold_max_ge: "y \<in> set ys \<Longrightarrow> y \<le> fold max ys (m::nat)"
proof (induction ys arbitrary: m)
  case Nil
  then show ?case by simp
next
  case (Cons a ys)
  show ?case
  proof (cases "y = a")
    case True
    have "a \<le> max a m" by simp
    also have "\<dots> \<le> fold max ys (max a m)" by (rule fold_max_lower)
    finally show ?thesis using True by simp
  next
    case False
    with Cons show ?thesis by simp
  qed
qed


lemma next_rowid_fresh: "r \<in> set rows \<Longrightarrow> q_id r < next_rowid rows"
  using fold_max_ge [of "q_id r" "map q_id rows" 0] by (simp add: next_rowid_def less_Suc_eq_le)



lemma queueOperation_ids:
  "sorted_wrt (<) (map q_id (sync_queue st)) \<Longrightarrow>
   sorted_wrt (<) (map q_id (sync_queue (queueOperation operation now st)))"
  by (auto simp: queueOperation_def sorted_wrt_append next_rowid_fresh)


lemma enqueue_all_ids:
  "sorted_wrt (<) (map q_id (sync_queue st)) \<Longrightarrow>
   sorted_wrt (<) (map q_id (sync_queue (enqueue_all ops st)))"
  by (induction ops rule: rev_induct) (simp_all add: enqueue_all_def queueOperation_ids)


lemma insort_key_queue_order:
  assumes "sorted_wrt queue_order ys" and "\<forall>y\<in>set ys. q_id x < q_id y"
  shows "sorted_wrt queue_order (insort_key q_created_at x ys)"
  using assms
proof (induction ys)
  case Nil
  then show ?case by simp
next
  case (Cons y ys)
  show ?case
  proof (cases "q_created_at x \<le> q_created_at y")
    case True
    have "queue_order x z" if "z \<in> set (y # ys)" for z
    proof -
      have "queue_order x y" using True Cons.prems(2) by (auto simp: queue_order_def)
      moreover have "q_created_at y \<le> q_created_at z"
        using that Cons.prems(1) by (auto simp: queue_order_def)
      ultimately show ?thesis using that Cons.prems(2) True
        by (auto simp: queue_order_def)
    qed
    with True Cons.prems(1) show ?thesis by simp
  next
    case False
    then have "queue_order y x" by (auto simp: queue_order_def not_le)
    moreover have "set (insort_key q_created_at x ys) = insert x (set ys)"
      by (simp add: set_insort_key)
    ultimately show ?thesis using False Cons by auto
  qed
qed


lemma sort_key_queue_order:
  "sorted_wrt (<) (map q_id xs) \<Longrightarrow> sorted_wrt queue_order (sort_key q_created_at xs)"
proof (induction xs)
  case Nil
  then show ?case by simp
next
  case (Cons x xs)
  then have "\<forall>y\<in>set (sort_key q_created_at xs). q_id x < q_id y" by auto
  with Cons show ?case by (simp add: insort_key_queue_order)
qed


lemma sorted_wrt_ids_filter:
  "sorted_wrt (<) (map q_id xs) \<Longrightarrow> sorted_wrt (<) (map q_id (filter P xs))"
  by (induction xs) auto


lemma select_pending_queue_order:
  "sorted_wrt (<) (map q_id (sync_queue st)) \<Longrightarrow> sorted_wrt queue_order (select_pending et st)"
  by (simp add: select_pending_def sort_key_queue_order sorted_wrt_ids_filter)


lemma enqueue_all_rows:
  "\<exists>news. sync_queue (enqueue_all ops st) = sync_queue st @ news \<and>
      map q_created_at news = map snd ops \<and>
      map row_operation news = map fst ops \<and>
      list_all (\<lambda>r. \<not> q_synced r) news"
proof (induction ops rule: rev_induct)
  case Nil
  show ?case by (rule exI [of _ "[]"]) (simp add: enqueue_all_def)
next
  case (snoc x ops)
  then obtain news where news: "sync_queue (enqueue_all ops st) = sync_queue st @ news"
      "map q_created_at news = map snd ops" "map row_operation news = map fst ops"
      "list_all (\<lambda>r. \<not> q_synced r) news" by blast
  let ?row = "\<lparr>q_id = next_rowid (sync_queue (enqueue_all ops st)),
         q_operation_type = so_operation_type (fst x),
         q_entity_type = so_entity_type (fst x),
         q_entity_id = so_entity_id (fst x),
         q_data = so_data (fst x),
         q_timestamp = so_timestamp (fst x),
         q_retry_count = 0,
         q_last_error = None,
         q_synced = False,
         q_synced_at = None,
         q_created_at = snd x\<rparr>"
  have "sync_queue (enqueue_all (ops @ [x]) st) = sync_queue st @ (news @ [?row])"
    using news(1) by (simp add: enqueue_all_snoc queueOperation_def)
  moreover have "map q_created_at (news @ [?row]) = map snd (ops @ [x])"
    using news(2) by simp
  moreover have "map row_operation (news @ [?row]) = map fst (ops @ [x])"
    using news(3) by (simp add: row_operation_def)
  moreover have "list_all (\<lambda>r. \<not> q_synced r) (news @ [?row])"
    using news(4) by simp
  ultimately show ?case by blast
qed

lemma sorted_filter_keys:
  "sorted (map f xs) \<Longrightarrow> sorted (map f (filter P xs))"
  by (induction xs) auto

lemma select_pending_table_order:
  assumes "sorted (map q_created_at (filter (\<lambda>r. \<not> q_synced r) (sync_queue st)))"
  shows "select_pending et st =
         filter (\<lambda>r. q_entity_type r = et \<and> \<not> q_synced r) (sync_queue st)"
proof -
  have split: "filter (\<lambda>r. q_entity_type r = et \<and> \<not> q_synced r) (sync_queue st) =
      filter (\<lambda>r. q_entity_type r = et) (filter (\<lambda>r. \<not> q_synced r) (sync_queue st))"
    by (simp add: conj_commute)
  have "sorted (map q_created_at
      (filter (\<lambda>r. q_entity_type r = et) (filter (\<lambda>r. \<not> q_synced r) (sync_queue st))))"
    using assms by (rule sorted_filter_keys)
  then show ?thesis
    unfolding select_pending_def split by (rule sort_key_id_if_sorted)
qed

lemma select_pending_enqueued:
  assumes "sorted (map q_created_at (filter (\<lambda>r. \<not> q_synced r) (sync_queue st)) @ map snd ops)"
  shows "map row_operation (select_pending et (enqueue_all ops st)) =
         map row_operation (filter (\<lambda>r. q_entity_type r = et \<and> \<not> q_synced r) (sync_queue st)) @
         filter (\<lambda>operation. so_entity_type operation = et) (map fst ops)"
proof -
  obtain news where news: "sync_queue (enqueue_all ops st) = sync_queue st @ news"
      "map q_created_at news = map snd ops" "map row_operation news = map fst ops"
      "list_all (\<lambda>r. \<not> q_synced r) news"
    using enqueue_all_rows by blast
  have un: "filter (\<lambda>r. \<not> q_synced r) news = news"
    using news(4) by (simp add: list_all_iff)
  have "sorted (map q_created_at (filter (\<lambda>r. \<not> q_synced r) (sync_queue (enqueue_all ops st))))"
    using assms by (simp add: news(1) news(2) un)
  then have sel: "select_pending et (enqueue_all ops st) =
      filter (\<lambda>r. q_entity_type r = et \<and> \<not> q_synced r) (sync_queue st) @
      filter (\<lambda>r. q_entity_type r = et \<and> \<not> q_synced r) news"
    by (simp add: select_pending_table_order news(1))
  have "filter (\<lambda>r. q_entity_type r = et \<and> \<not> q_synced r) news =
        filter (\<lambda>r. q_entity_type r = et) news"
    using news(4) by (intro filter_cong) (auto simp: list_all_iff)
  moreover have "map row_operation (filter (\<lambda>r. q_entity_type r = et) news) =
      filter (\<lambda>operation. so_entity_type operation = et) (map row_operation news)"
    by (simp add: filter_map comp_def row_operation_def)
  ultimately show ?thesis using sel news(3) by simp
qed

lemma syncPayload_items:
  "syncPayload e batch = Some payload \<Longrightarrow>
   list_all2 (\<lambda>op x. to_sync_item e op = Some x) batch payload"
proof (induction batch arbitrary: payload)
  case Nil
  then show ?case by simp
next
  case (Cons op batch)
  then show ?case
    by (auto split: option.splits)
qed

lemma syncCategories_calls:
  assumes "select_pending Category st \<noteq> []"
      and "syncPayload e (select_pending Category st) = Some payload"
  shows "snd (snd (syncCategories e now (st, srv))) = snd (api_categories_sync e payload srv)"
  using assms
  by (simp add: syncCategories_outcome [of st e payload] Let_def split: prod.splits sum.splits)

lemma syncItems_calls:
  assumes "select_pending Item st \<noteq> []"
      and "syncPayload e (select_pending Item st) = Some payload"
  shows "snd (snd (syncItems e now (st, srv))) = snd (api_items_sync e payload srv)"
  using assms
  by (simp add: syncItems_outcome [of st e payload] Let_def split: prod.splits sum.splits)

text \<open>
  The rows of \<open>sync_queue\<close> are in rowid order and \<open>id\<close> is the rowid, so the ids
  ascend along the table. \<open>queueOperation\<close> keeps this (\<open>queueOperation_ids\<close>), and
  so do the drains, which change no id.
\<close>

lemma drains_keep_ids:
  "map q_id (sync_queue (fst (snd (syncCategories e now (st, srv))))) = map q_id (sync_queue st) \<and>
   map q_id (sync_queue (fst (snd (syncItems e now (st, srv))))) = map q_id (sync_queue st)"
proof -
  have "map q_id q = map q_id (sync_queue st)" if "queue_after et now st q" for et q
    using that by (auto simp: queue_after_def)
  with syncCategories_queue [where now = now and st = st and e = e and srv = srv]
    syncItems_queue [where now = now and st = st and e = e and srv = srv]
  show ?thesis by blast
qed

text \<open>
  C2 (as amended). Whatever the queue holds (its ids ascending along the table) and
  whatever is queued on top of it, the operations selected for a batch are in
  \<open>queue_order\<close>: \<open>created_at\<close> ascending, rows with equal \<open>created_at\<close> in
  \<open>id\<close> order (the statement sorts by \<open>created_at\<close> only; the tie order is that of
  the table). When the clock readings of the operations still pending and of those
  queued after them never decrease, this is the enqueue order: the batch for an entity
  type consists of the pending operations of that type followed by the newly queued ones
  of that type, in the order they were queued. A drain with a batch passes to its sync
  endpoint one request whose elements are the sync items of the operations of the
  batch, in that order.
\<close>

theorem upload_order:
  fixes e :: "'srv env"
  assumes "sorted_wrt (<) (map q_id (sync_queue st))"
  shows "let st' = enqueue_all ops st in
         sorted_wrt queue_order (select_pending et st') \<and>
         (sorted (map q_created_at (filter (\<lambda>r. \<not> q_synced r) (sync_queue st)) @ map snd ops) \<longrightarrow>
            map row_operation (select_pending et st') =
            map row_operation
              (filter (\<lambda>r. q_entity_type r = et \<and> \<not> q_synced r) (sync_queue st)) @
            filter (\<lambda>operation. so_entity_type operation = et) (map fst ops)) \<and>
         (select_pending Category st' \<noteq> [] \<and>
          syncPayload e (select_pending Category st') = Some pc \<longrightarrow>
            list_all2 (\<lambda>op x. to_sync_item e op = Some x) (select_pending Category st') pc \<and>
            snd (snd (syncCategories e now (st', srv))) = snd (api_categories_sync e pc srv)) \<and>
         (select_pending Item st' \<noteq> [] \<and>
          syncPayload e (select_pending Item st') = Some pi \<longrightarrow>
            list_all2 (\<lambda>op x. to_sync_item e op = Some x) (select_pending Item st') pi \<and>
            snd (snd (syncItems e now (st', srv))) = snd (api_items_sync e pi srv))"
proof -
  define st' where "st' = enqueue_all ops st"
  have "sorted_wrt queue_order (select_pending et st')"
    unfolding st'_def using assms by (intro select_pending_queue_order enqueue_all_ids)
  moreover note select_pending_enqueued [of st ops et, folded st'_def]
    syncPayload_items [of e "select_pending Category st'" pc]
    syncPayload_items [of e "select_pending Item st'" pi]
    syncCategories_calls [of st' e pc now srv]
    syncItems_calls [of st' e pi now srv]
  ultimately have
    "sorted_wrt queue_order (select_pending et st') \<and>
         (sorted (map q_created_at (filter (\<lambda>r. \<not> q_synced r) (sync_queue st)) @ map snd ops) \<longrightarrow>
            map row_operation (select_pending et st') =
            map row_operation
              (filter (\<lambda>r. q_entity_type r = et \<and> \<not> q_synced r) (sync_queue st)) @
            filter (\<lambda>operation. so_entity_type operation = et) (map fst ops)) \<and>
         (select_pending Category st' \<noteq> [] \<and>
          syncPayload e (select_pending Category st') = Some pc \<longrightarrow>
            list_all2 (\<lambda>op x. to_sync_item e op = Some x) (select_pending Category st') pc \<and>
            snd (snd (syncCategories e now (st', srv))) = snd (api_categories_sync e pc srv)) \<and>
         (select_pending Item st' \<noteq> [] \<and>
          syncPayload e (select_pending Item st') = Some pi \<longrightarrow>
            list_all2 (\<lambda>op x. to_sync_item e op = Some x) (select_pending Item st') pi \<and>
            snd (snd (syncItems e now (st', srv))) = snd (api_items_sync e pi srv))"
    by blast
  then show ?thesis unfolding Let_def st'_def .
qed

theorem upload_order_witness:
  "sorted_wrt (<) (map q_id (sync_queue part_drained)) \<and>
   sorted (map q_created_at (filter (\<lambda>r. \<not> q_synced r) (sync_queue part_drained)) @
           map snd later_ops) \<and>
   select_pending Category (enqueue_all later_ops part_drained) \<noteq> [] \<and>
   syncPayload recording_server (select_pending Category (enqueue_all later_ops part_drained)) =
     Some [\<lparr>si_operation = OpCreate, si_data = Some ''{}'', si_id = None,
             si_timestamp = ''2024-03-01T10:00:00.500Z''\<rparr>,
           \<lparr>si_operation = OpDelete, si_data = None, si_id = Some ''c1'',
             si_timestamp = ''2024-03-01T10:00:00.880Z''\<rparr>] \<and>
   select_pending Item (enqueue_all later_ops part_drained) \<noteq> [] \<and>
   syncPayload recording_server (select_pending Item (enqueue_all later_ops part_drained)) =
     Some [\<lparr>si_operation = OpUpdate, si_data = Some ''{}'', si_id = None,
             si_timestamp = ''t2''\<rparr>] \<and>
   sorted_wrt queue_order (select_pending Category (enqueue_all later_ops part_drained)) \<and>
   map row_operation (select_pending Category (enqueue_all later_ops part_drained)) =
     [create_c1, delete_c1] \<and>
   snd (snd (syncCategories recording_server ''2024-03-01T10:05:00.000Z''
               (enqueue_all later_ops part_drained, []))) =
     [[\<lparr>si_operation = OpCreate, si_data = Some ''{}'', si_id = None,
         si_timestamp = ''2024-03-01T10:00:00.500Z''\<rparr>,
       \<lparr>si_operation = OpDelete, si_data = None, si_id = Some ''c1'',
         si_timestamp = ''2024-03-01T10:00:00.880Z''\<rparr>]] \<and>
   snd (snd (syncItems recording_server ''2024-03-01T10:05:00.000Z''
               (enqueue_all later_ops part_drained, []))) =
     [[\<lparr>si_operation = OpUpdate, si_data = Some ''{}'', si_id = None,
         si_timestamp = ''t2''\<rparr>]]"
proof -
  let ?st' = "enqueue_all later_ops part_drained"
  let ?pc = "[\<lparr>si_operation = OpCreate, si_data = Some ''{}'', si_id = None,
                si_timestamp = ''2024-03-01T10:00:00.500Z''\<rparr>,
              \<lparr>si_operation = OpDelete, si_data = None, si_id = Some ''c1'',
                si_timestamp = ''2024-03-01T10:00:00.880Z''\<rparr>]"
  let ?pi = "[\<lparr>si_operation = OpUpdate, si_data = Some ''{}'', si_id = None,
                si_timestamp = ''t2''\<rparr>]"
  have ids: "sorted_wrt (<) (map q_id (sync_queue part_drained))"
    by (simp add: part_drained_def)
  have clock: "sorted (map q_created_at (filter (\<lambda>r. \<not> q_synced r) (sync_queue part_drained)) @
      map snd later_ops)"
    by (simp add: part_drained_def later_ops_def)
  have sc: "select_pending Category ?st' =
      [\<lparr>q_id = 2, q_operation_type = OpCreate, q_entity_type = Category, q_entity_id = ''c1'',
        q_data = ''{}'', q_timestamp = ''2024-03-01T10:00:00.500Z'', q_retry_count = 0,
        q_last_error = None, q_synced = False, q_synced_at = None,
        q_created_at = ''2024-03-01T10:00:00.500Z''\<rparr>,
       \<lparr>q_id = 3, q_operation_type = OpDelete, q_entity_type = Category, q_entity_id = ''c1'',
        q_data = ''{}'', q_timestamp = ''2024-03-01T10:00:00.880Z'', q_retry_count = 0,
        q_last_error = None, q_synced = False, q_synced_at = None,
        q_created_at = ''2024-03-01T10:00:00.880Z''\<rparr>]"
    by (simp add: later_ops_def part_drained_def enqueue_all_def queueOperation_def
          empty_store_def delete_c1_def op_item_def next_rowid_def select_pending_def)
  have si: "select_pending Item ?st' =
      [\<lparr>q_id = 4, q_operation_type = OpUpdate, q_entity_type = Item, q_entity_id = ''i1'',
        q_data = ''{}'', q_timestamp = ''t2'', q_retry_count = 0,
        q_last_error = None, q_synced = False, q_synced_at = None,
        q_created_at = ''2024-03-01T10:00:01.000Z''\<rparr>]"
    by (simp add: later_ops_def part_drained_def enqueue_all_def queueOperation_def
          empty_store_def delete_c1_def op_item_def next_rowid_def select_pending_def)
  have nc: "select_pending Category ?st' \<noteq> []" by (simp add: sc)
  have ni: "select_pending Item ?st' \<noteq> []" by (simp add: si)
  have pc: "syncPayload recording_server (select_pending Category ?st') = Some ?pc"
    by (simp add: sc to_sync_item_def recording_server_def)
  have pi: "syncPayload recording_server (select_pending Item ?st') = Some ?pi"
    by (simp add: si to_sync_item_def recording_server_def)
  have f: "map row_operation
       (filter (\<lambda>r. q_entity_type r = Category \<and> \<not> q_synced r) (sync_queue part_drained)) @
      filter (\<lambda>operation. so_entity_type operation = Category) (map fst later_ops) =
      [create_c1, delete_c1]"
    by (simp add: part_drained_def later_ops_def row_operation_def create_c1_def delete_c1_def
          op_item_def)
  have ac: "snd (api_categories_sync recording_server ?pc []) = [?pc]"
    by (simp add: recording_server_def)
  have ai: "snd (api_items_sync recording_server ?pi []) = [?pi]"
    by (simp add: recording_server_def)
  note t = upload_order [where st = part_drained and ops = later_ops and et = Category
      and e = recording_server and pc = ?pc and pi = ?pi
      and now = "''2024-03-01T10:05:00.000Z''" and srv = "[]", OF ids, unfolded Let_def]
  from t have o: "sorted_wrt queue_order (select_pending Category ?st')" by blast
  from t clock have r: "map row_operation (select_pending Category ?st') =
      map row_operation
       (filter (\<lambda>r. q_entity_type r = Category \<and> \<not> q_synced r) (sync_queue part_drained)) @
      filter (\<lambda>operation. so_entity_type operation = Category) (map fst later_ops)"
    by blast
  from t nc pc have uc: "snd (snd (syncCategories recording_server ''2024-03-01T10:05:00.000Z''
      (?st', []))) = snd (api_categories_sync recording_server ?pc [])"
    by blast
  from t ni pi have ui: "snd (snd (syncItems recording_server ''2024-03-01T10:05:00.000Z''
      (?st', []))) = snd (api_items_sync recording_server ?pi [])"
    by blast
  from ids clock nc pc ni pi o r [unfolded f] uc [unfolded ac] ui [unfolded ai]
  show ?thesis by blast
qed

text \<open>
  C2, as stated, fails. \<open>create\<close> and then \<open>update\<close> of category \<open>c1\<close> are queued, the
  clock reading of the second \<open>queueOperation\<close> being earlier than that of the first.
  The drain succeeds, and the one batch the server receives lists the update before the
  create.
\<close>

theorem clock_set_back_reorders:
  "snd (snd (syncCategories recording_server ''2024-03-01T10:05:00.000Z'' (clock_set_back, []))) =
     [[\<lparr>si_operation = OpUpdate, si_data = Some ''{}'', si_id = None,
         si_timestamp = ''2024-03-01T10:00:00.120Z''\<rparr>,
       \<lparr>si_operation = OpCreate, si_data = Some ''{}'', si_id = None,
         si_timestamp = ''2024-03-01T10:00:00.500Z''\<rparr>]]"
  by (simp add: syncCategories_def clock_set_back_def enqueue_all_def queueOperation_def
        empty_store_def create_c1_def update_c1_def next_rowid_def select_pending_def
        to_sync_item_def recording_server_def Let_def)

section \<open>Failed batches\<close>

text \<open>
  C3 (as amended). A drain whose batch request is rejected (timeout, 5xx, or a response
  body that is null) returns \<open>{success: false, synced: 0}\<close> and leaves the store
  exactly as it was, so every operation of the failed batch stays pending and the next
  drain selects the same batch again. And no drain, whatever the outcome of its request,
  changes the \<open>retry_count\<close> or the \<open>last_error\<close> of any queued operation: the
  drains never call \<open>updateRetryCount\<close>.
\<close>

theorem failed_batch_left_untouched:
  fixes e :: "'srv env"
  shows
  "(select_pending Category st \<noteq> [] \<and> syncPayload e (select_pending Category st) = Some pc \<and>
    fst (api_categories_sync e pc srv) = Inl err \<longrightarrow>
      fst (syncCategories e now (st, srv)) = drain_failed \<and>
      fst (snd (syncCategories e now (st, srv))) = st) \<and>
   (select_pending Item st \<noteq> [] \<and> syncPayload e (select_pending Item st) = Some pi \<and>
    fst (api_items_sync e pi srv) = Inl err \<longrightarrow>
      fst (syncItems e now (st, srv)) = drain_failed \<and>
      fst (snd (syncItems e now (st, srv))) = st) \<and>
   map q_retry_count (sync_queue (fst (snd (syncCategories e now (st, srv))))) =
     map q_retry_count (sync_queue st) \<and>
   map q_last_error (sync_queue (fst (snd (syncCategories e now (st, srv))))) =
     map q_last_error (sync_queue st) \<and>
   map q_retry_count (sync_queue (fst (snd (syncItems e now (st, srv))))) =
     map q_retry_count (sync_queue st) \<and>
   map q_last_error (sync_queue (fst (snd (syncItems e now (st, srv))))) =
     map q_last_error (sync_queue st)"
proof -
  have c: "fst (syncCategories e now (st, srv)) = drain_failed \<and>
      fst (snd (syncCategories e now (st, srv))) = st"
    if h: "select_pending Category st \<noteq> [] \<and>
      syncPayload e (select_pending Category st) = Some pc \<and>
      fst (api_categories_sync e pc srv) = Inl err"
  proof -
    obtain srv' where "api_categories_sync e pc srv = (Inl err, srv')"
      using h by (cases "api_categories_sync e pc srv") simp
    with h show ?thesis
      by (simp add: syncCategories_outcome [of st e pc])
  qed
  have i: "fst (syncItems e now (st, srv)) = drain_failed \<and>
      fst (snd (syncItems e now (st, srv))) = st"
    if h: "select_pending Item st \<noteq> [] \<and>
      syncPayload e (select_pending Item st) = Some pi \<and>
      fst (api_items_sync e pi srv) = Inl err"
  proof -
    obtain srv' where "api_items_sync e pi srv = (Inl err, srv')"
      using h by (cases "api_items_sync e pi srv") simp
    with h show ?thesis
      by (simp add: syncItems_outcome [of st e pi])
  qed
  note rc = queue_after_retry_fields [OF syncCategories_queue [where now = now and st = st and e = e and srv = srv]]
  note ri = queue_after_retry_fields [OF syncItems_queue [where now = now and st = st and e = e and srv = srv]]
  from c i rc ri show ?thesis by blast
qed

theorem failed_batch_left_untouched_witness:
  "select_pending Category two_pending \<noteq> [] \<and>
   syncPayload server_down (select_pending Category two_pending) =
     Some [\<lparr>si_operation = OpCreate, si_data = Some ''{}'', si_id = None, si_timestamp = ''t1''\<rparr>] \<and>
   fst (api_categories_sync server_down
     [\<lparr>si_operation = OpCreate, si_data = Some ''{}'', si_id = None, si_timestamp = ''t1''\<rparr>] ()) =
     Inl (ApiError None) \<and>
   fst (syncCategories server_down ''t3'' (two_pending, ())) = drain_failed \<and>
   fst (snd (syncCategories server_down ''t3'' (two_pending, ()))) = two_pending \<and>
   select_pending Item two_pending \<noteq> [] \<and>
   syncPayload server_down (select_pending Item two_pending) =
     Some [\<lparr>si_operation = OpUpdate, si_data = Some ''{}'', si_id = None, si_timestamp = ''t2''\<rparr>] \<and>
   fst (api_items_sync server_down
     [\<lparr>si_operation = OpUpdate, si_data = Some ''{}'', si_id = None, si_timestamp = ''t2''\<rparr>] ()) =
     Inl (ApiError None) \<and>
   fst (syncItems server_down ''t3'' (two_pending, ())) = drain_failed \<and>
   fst (snd (syncItems server_down ''t3'' (two_pending, ()))) = two_pending"
proof -
  have c: "select_pending Category two_pending \<noteq> [] \<and>
     syncPayload server_down (select_pending Category two_pending) =
     Some [\<lparr>si_operation = OpCreate, si_data = Some ''{}'', si_id = None, si_timestamp = ''t1''\<rparr>]"
    by (simp add: demo_defs server_down_def)
  have i: "select_pending Item two_pending \<noteq> [] \<and>
     syncPayload server_down (select_pending Item two_pending) =
     Some [\<lparr>si_operation = OpUpdate, si_data = Some ''{}'', si_id = None, si_timestamp = ''t2''\<rparr>]"
    by (simp add: demo_defs server_down_def)
  have ac: "fst (api_categories_sync server_down
     [\<lparr>si_operation = OpCreate, si_data = Some ''{}'', si_id = None, si_timestamp = ''t1''\<rparr>] ()) =
     Inl (ApiError None)"
    by (simp add: server_down_def)
  have ai: "fst (api_items_sync server_down
     [\<lparr>si_operation = OpUpdate, si_data = Some ''{}'', si_id = None, si_timestamp = ''t2''\<rparr>] ()) =
     Inl (ApiError None)"
    by (simp add: server_down_def)
  show ?thesis
    using failed_batch_left_untouched [of two_pending server_down
      "[\<lparr>si_operation = OpCreate, si_data = Some ''{}'', si_id = None, si_timestamp = ''t1''\<rparr>]"
      "()" "ApiError None" "''t3''"
      "[\<lparr>si_operation = OpUpdate, si_data = Some ''{}'', si_id = None, si_timestamp = ''t2''\<rparr>]"]
      c i ac ai
    by simp
qed

text \<open>
  C3, as stated, fails. The item batch of \<open>two_pending\<close> is answered with status 500.
  After the drain the item operation (id 2) is still pending, its \<open>retry_count\<close> is 0
  as before, not 1, and no \<open>last_error\<close> is recorded.
\<close>

theorem failed_batch_retry_count_unchanged:
  "fst (syncItems items_down ''t3'' (two_pending, ())) = drain_failed \<and>
   map q_id (select_pending Item (fst (snd (syncItems items_down ''t3'' (two_pending, ()))))) = [2] \<and>
   map q_retry_count
     (select_pending Item (fst (snd (syncItems items_down ''t3'' (two_pending, ()))))) = [0] \<and>
   map q_last_error
     (select_pending Item (fst (snd (syncItems items_down ''t3'' (two_pending, ()))))) = [None]"
  by (simp add: syncItems_def demo_defs drain_failed_def)

text \<open>
  A batch that the server accepts can still end in the \<open>catch\<close>: the operations are
  marked first, and reading a null element of the echoed list throws afterwards. The
  drain then returns \<open>{success: false, synced: 0}\<close> although the category operation of
  \<open>two_pending\<close> (id 1) is no longer pending; its \<open>retry_count\<close> and \<open>last_error\<close>
  are as before.
\<close>

lemma unreadable_echo_marks_batch:
  "fst (syncCategories echo_unreadable ''t3'' (two_pending, ())) = drain_failed \<and>
   map q_id (select_pending Category two_pending) = [1] \<and>
   select_pending Category (fst (snd (syncCategories echo_unreadable ''t3'' (two_pending, ())))) = [] \<and>
   map q_synced (sync_queue (fst (snd (syncCategories echo_unreadable ''t3'' (two_pending, ()))))) =
     [True, False] \<and>
   map q_retry_count
     (sync_queue (fst (snd (syncCategories echo_unreadable ''t3'' (two_pending, ()))))) = [0, 0] \<and>
   map q_last_error
     (sync_queue (fst (snd (syncCategories echo_unreadable ''t3'' (two_pending, ()))))) =
     [None, None]"
  by (simp add: syncCategories_def demo_defs drain_failed_def echo_unreadable_def
        applyCategoryEcho_def markAllSynced_def markOperationSynced_def)


section \<open>Properties of the sync cycle\<close>

lemma syncCategories_frame:
  "items (fst (snd (syncCategories e now (st, srv)))) = items st \<and>
   bills (fst (snd (syncCategories e now (st, srv)))) = bills st \<and>
   inventory_items (fst (snd (syncCategories e now (st, srv)))) = inventory_items st \<and>
   user_data (fst (snd (syncCategories e now (st, srv)))) = user_data st \<and>
   sync_history (fst (snd (syncCategories e now (st, srv)))) = sync_history st \<and>
   last_sync_time (fst (snd (syncCategories e now (st, srv)))) = last_sync_time st"
  by (simp add: syncCategories_def Let_def applyCategoryEcho_frame markAllSynced_shape
        split: option.splits prod.splits sum.splits)

lemma syncItems_frame:
  "categories (fst (snd (syncItems e now (st, srv)))) = categories st \<and>
   bills (fst (snd (syncItems e now (st, srv)))) = bills st \<and>
   inventory_items (fst (snd (syncItems e now (st, srv)))) = inventory_items st \<and>
   user_data (fst (snd (syncItems e now (st, srv)))) = user_data st \<and>
   sync_history (fst (snd (syncItems e now (st, srv)))) = sync_history st \<and>
   last_sync_time (fst (snd (syncItems e now (st, srv)))) = last_sync_time st"
  by (simp add: syncItems_def Let_def applyItemEcho_frame markAllSynced_shape
        split: option.splits prod.splits sum.splits)

lemma syncBills_frame:
  "sync_queue (fst (snd (syncBills e now (st, srv)))) = sync_queue st \<and>
   categories (fst (snd (syncBills e now (st, srv)))) = categories st \<and>
   items (fst (snd (syncBills e now (st, srv)))) = items st \<and>
   inventory_items (fst (snd (syncBills e now (st, srv)))) = inventory_items st \<and>
   user_data (fst (snd (syncBills e now (st, srv)))) = user_data st \<and>
   sync_history (fst (snd (syncBills e now (st, srv)))) = sync_history st \<and>
   last_sync_time (fst (snd (syncBills e now (st, srv)))) = last_sync_time st"
  by (simp add: syncBills_def Let_def markBillsSynced_def
        split: option.splits prod.splits sum.splits)


lemma syncInventoryLoop_frame:
  "sync_queue (fst (syncInventoryLoop e xs (st, srv, n, m))) = sync_queue st \<and>
   categories (fst (syncInventoryLoop e xs (st, srv, n, m))) = categories st \<and>
   items (fst (syncInventoryLoop e xs (st, srv, n, m))) = items st \<and>
   bills (fst (syncInventoryLoop e xs (st, srv, n, m))) = bills st \<and>
   user_data (fst (syncInventoryLoop e xs (st, srv, n, m))) = user_data st \<and>
   sync_history (fst (syncInventoryLoop e xs (st, srv, n, m))) = sync_history st \<and>
   last_sync_time (fst (syncInventoryLoop e xs (st, srv, n, m))) = last_sync_time st"
proof (induction xs arbitrary: st srv n m)
  case Nil
  then show ?case by simp
next
  case (Cons item rest)
  show ?case
    by (simp add: Cons.IH markInventoryItemSynced_def
          split: prod.splits sum.splits api_error.splits)
qed

lemma syncInventory_frame:
  "sync_queue (fst (snd (syncInventory e now (st, srv)))) = sync_queue st \<and>
   categories (fst (snd (syncInventory e now (st, srv)))) = categories st \<and>
   items (fst (snd (syncInventory e now (st, srv)))) = items st \<and>
   bills (fst (snd (syncInventory e now (st, srv)))) = bills st \<and>
   user_data (fst (snd (syncInventory e now (st, srv)))) = user_data st \<and>
   sync_history (fst (snd (syncInventory e now (st, srv)))) = sync_history st \<and>
   last_sync_time (fst (snd (syncInventory e now (st, srv)))) = last_sync_time st"
proof -
  obtain st' srv' n m where
    loop: "syncInventoryLoop e (getUnsyncedInventoryItems st) (st, srv, 0, 0) = (st', srv', n, m)"
    by (cases "syncInventoryLoop e (getUnsyncedInventoryItems st) (st, srv, 0, 0)") auto
  from syncInventoryLoop_frame [of e "getUnsyncedInventoryItems st" st srv 0 0] loop
  show ?thesis by (simp add: syncInventory_def Let_def)
qed





lemma drains_frame:
  fixes e :: "'srv env"
  shows "let c = syncCategories e now (st, srv); i = syncItems e now (snd c);
             b = syncBills e now (snd i); v = syncInventory e now (snd b) in
         user_data (fst (snd i)) = user_data st \<and> bills (fst (snd i)) = bills st \<and>
         inventory_items (fst (snd i)) = inventory_items st \<and>
         inventory_items (fst (snd b)) = inventory_items st \<and>
         sync_queue (fst (snd v)) = sync_queue (fst (snd i)) \<and>
         bills (fst (snd v)) = bills (fst (snd b)) \<and>
         sync_history (fst (snd v)) = sync_history st \<and>
         last_sync_time (fst (snd v)) = last_sync_time st"
proof -
  define c where "c = syncCategories e now (st, srv)"
  define i where "i = syncItems e now (snd c)"
  define b where "b = syncBills e now (snd i)"
  define v where "v = syncInventory e now (snd b)"
  have fc: "snd c = (fst (snd c), snd (snd c))" and fi: "snd i = (fst (snd i), snd (snd i))"
    and fb: "snd b = (fst (snd b), snd (snd b))" by simp_all
  note C = syncCategories_frame [of e now st srv, folded c_def]
  note I = syncItems_frame [of e now "fst (snd c)" "snd (snd c)", folded fc, folded i_def]
  note B = syncBills_frame [of e now "fst (snd i)" "snd (snd i)", folded fi, folded b_def]
  note V = syncInventory_frame [of e now "fst (snd b)" "snd (snd b)", folded fb, folded v_def]
  from C I B V have
     "user_data (fst (snd i)) = user_data st \<and> bills (fst (snd i)) = bills st \<and>
         inventory_items (fst (snd i)) = inventory_items st \<and>
         inventory_items (fst (snd b)) = inventory_items st \<and>
         sync_queue (fst (snd v)) = sync_queue (fst (snd i)) \<and>
         bills (fst (snd v)) = bills (fst (snd b)) \<and>
         sync_history (fst (snd v)) = sync_history st \<and>
         last_sync_time (fst (snd v)) = last_sync_time st" by simp
  then show ?thesis
    by (simp add: Let_def c_def i_def b_def v_def)
qed

text \<open>
  C7. Offline entry guard. When \<open>NetInfo.fetch()\<close> reports no connection, \<open>syncAll\<close>
  returns \<open>success = false\<close> with the four counts zero, and neither the store nor the
  server has changed: no drain ran.
\<close>

theorem offline_cycle_aborts:
  assumes "\<not> getNetworkStatus e"
  shows "syncAll e now (st, srv) =
           (\<lparr>all_success = False, categoriesSynced = 0, itemsSynced = 0, billsSynced = 0,
             inventorySynced = 0\<rparr>, st, srv)"
  using assms by (simp add: syncAll_def)

theorem offline_cycle_aborts_witness:
  "\<not> getNetworkStatus no_network \<and>
   syncAll no_network ''t3'' (busy_store, ()) =
     (\<lparr>all_success = False, categoriesSynced = 0, itemsSynced = 0, billsSynced = 0,
       inventorySynced = 0\<rparr>, busy_store, ())"
  using offline_cycle_aborts [of no_network "''t3''" busy_store "()"]
  by (simp add: no_network_def getNetworkStatus_def)

text \<open>
  What \<open>syncAll\<close> does to the history. After a cycle whose success flag is true and in
  which at least one of the four counts is positive, a new entry listing the positive
  counts is at the front of \<open>sync_history\<close> (cut to 20 entries) and
  \<open>last_sync_time\<close> is the time of the cycle. After any other cycle both are what they
  were: the guard is \<open>success && (...)\<close>, under the comment "Save to history if any
  items were synced".
\<close>

theorem history_recorded_on_success:
  fixes e :: "'srv env"
  shows
  "let r = fst (syncAll e now (st, srv)); st' = fst (snd (syncAll e now (st, srv))) in
   if all_success r \<and>
      (categoriesSynced r > 0 \<or> itemsSynced r > 0 \<or> billsSynced r > 0 \<or> inventorySynced r > 0)
   then sync_history st' =
          take 20 (\<lparr>he_id = now, he_date = formatDisplayDateTime e now, he_timestamp = now,
                     he_items = filter (\<lambda>item. snd item > 0)
                       [(''Categories'', categoriesSynced r), (''Items'', itemsSynced r),
                        (''Bills'', billsSynced r), (''Inventory'', inventorySynced r)]\<rparr>
                   # sync_history st) \<and>
        last_sync_time st' = Some now
   else sync_history st' = sync_history st \<and> last_sync_time st' = last_sync_time st"
proof (cases "getNetworkStatus e")
  case False
  then show ?thesis by (simp add: syncAll_def)
next
  case True
  define c where "c = syncCategories e now (st, srv)"
  define i where "i = syncItems e now (snd c)"
  define b where "b = syncBills e now (snd i)"
  define v where "v = syncInventory e now (snd b)"
  have fr: "sync_history (fst (snd v)) = sync_history st"
           "last_sync_time (fst (snd v)) = last_sync_time st"
    using drains_frame [of e now st srv] by (simp_all add: Let_def c_def i_def b_def v_def)
  have cut: "(if length h > 20 then take 20 h else h) = take 20 h" for h :: "history_entry list"
    by simp
  show ?thesis
    using True fr
    by (auto simp: syncAll_def Let_def saveSyncToHistory_def cut
          c_def [symmetric] i_def [symmetric] b_def [symmetric] v_def [symmetric]
          simp del: take_all_iff)
qed


lemmas cycle_defs = syncAll_def syncCategories_def syncItems_def syncBills_def syncInventory_def
  getNetworkStatus_def getUserData_def select_unsynced_bills_def to_bill_wire_def
  markBillsSynced_def getUnsyncedInventoryItems_def markInventoryItemSynced_def
  markAllSynced_def markOperationSynced_def applyCategoryEcho_def applyItemEcho_def
  saveSyncToHistory_def drain_failed_def busy_store_def

lemma busy_cycle_server_up:
  "fst (syncAll server_up ''t3'' (busy_store, ())) =
     \<lparr>all_success = True, categoriesSynced = 1, itemsSynced = 1, billsSynced = 1,
       inventorySynced = 1\<rparr> \<and>
   sync_history (fst (snd (syncAll server_up ''t3'' (busy_store, ())))) =
     [\<lparr>he_id = ''t3'', he_date = ''t3'', he_timestamp = ''t3'',
       he_items = [(''Categories'', 1), (''Items'', 1), (''Bills'', 1), (''Inventory'', 1)]\<rparr>] \<and>
   last_sync_time (fst (snd (syncAll server_up ''t3'' (busy_store, ())))) = Some ''t3''"
  by (simp add: cycle_defs demo_defs Let_def)

theorem history_recorded_on_success_witness:
  "all_success (fst (syncAll server_up ''t3'' (busy_store, ()))) \<and>
   categoriesSynced (fst (syncAll server_up ''t3'' (busy_store, ()))) > 0 \<and>
   sync_history (fst (snd (syncAll server_up ''t3'' (busy_store, ())))) =
     take 20 (\<lparr>he_id = ''t3'', he_date = formatDisplayDateTime server_up ''t3'',
                he_timestamp = ''t3'',
                he_items = [(''Categories'', 1), (''Items'', 1), (''Bills'', 1), (''Inventory'', 1)]\<rparr>
              # sync_history busy_store) \<and>
   last_sync_time (fst (snd (syncAll server_up ''t3'' (busy_store, ())))) = Some ''t3''"
  using history_recorded_on_success [of server_up "''t3''" busy_store "()"] busy_cycle_server_up
  by (simp add: Let_def)

lemma busy_cycle_items_down:
  "syncAll items_down ''t3'' (busy_store, ()) =
     (\<lparr>all_success = False, categoriesSynced = 1, itemsSynced = 0, billsSynced = 1,
       inventorySynced = 1\<rparr>,
      busy_store
        \<lparr>sync_queue := [(sync_queue busy_store ! 0)\<lparr>q_synced := True, q_synced_at := Some ''t3''\<rparr>,
                         sync_queue busy_store ! 1],
          bills := [(bills busy_store ! 0)\<lparr>b_is_synced := SqlInt 1\<rparr>],
          inventory_items := [(inventory_items busy_store ! 0)\<lparr>inv_is_synced := True\<rparr>]\<rparr>, ())"
  by (simp add: cycle_defs demo_defs Let_def)

text \<open>
  C4. The claim, and the comment above the guard in \<open>syncAll\<close>: after every cycle that
  synced something, a history entry is written and \<open>last_sync_time\<close> is updated. The
  code: on \<open>busy_store\<close>, with the item batch rejected, the cycle syncs one category
  operation, one bill and one inventory item, so the combined count is 3; its success
  flag is false, no history entry is written and \<open>last_sync_time\<close> stays unset.
\<close>

theorem partial_cycle_writes_no_history:
  "categoriesSynced (fst (syncAll items_down ''t3'' (busy_store, ()))) +
   itemsSynced (fst (syncAll items_down ''t3'' (busy_store, ()))) +
   billsSynced (fst (syncAll items_down ''t3'' (busy_store, ()))) +
   inventorySynced (fst (syncAll items_down ''t3'' (busy_store, ()))) = 3 \<and>
   sync_history busy_store = [] \<and>
   sync_history (fst (snd (syncAll items_down ''t3'' (busy_store, ())))) = [] \<and>
   last_sync_time (fst (snd (syncAll items_down ''t3'' (busy_store, ())))) = None"
  by (simp add: busy_cycle_items_down) (simp add: busy_store_def demo_defs)



text \<open>
  C10. Bills drain without user data. When \<open>getUserData\<close> returns null, the bills drain
  returns \<open>{success: false, synced: 0}\<close> with the store and the server unchanged (no
  request, no bill marked); hence every sync cycle run in that state reports
  \<open>success = false\<close> and \<open>billsSynced = 0\<close> and leaves the \<open>bills\<close> table as it was,
  whatever is pending.
\<close>

theorem bills_drain_needs_user:
  fixes e :: "'srv env"
  assumes "getUserData e st = None"
  shows "syncBills e now (st, srv) = (drain_failed, st, srv) \<and>
         \<not> all_success (fst (syncAll e now (st, srv))) \<and>
         billsSynced (fst (syncAll e now (st, srv))) = 0 \<and>
         bills (fst (snd (syncAll e now (st, srv)))) = bills st"
proof -
  have alone: "syncBills e now (st, srv) = (drain_failed, st, srv)"
    using assms by (simp add: syncBills_def)
  show ?thesis
  proof (cases "getNetworkStatus e")
    case False
    with alone show ?thesis by (simp add: syncAll_def)
  next
    case True
    define c where "c = syncCategories e now (st, srv)"
    define i where "i = syncItems e now (snd c)"
    define b where "b = syncBills e now (snd i)"
    define v where "v = syncInventory e now (snd b)"
    have fr: "user_data (fst (snd i)) = user_data st" "bills (fst (snd i)) = bills st"
             "bills (fst (snd v)) = bills (fst (snd b))"
      using drains_frame [of e now st srv] by (simp_all add: Let_def c_def i_def b_def v_def)
    have "getUserData e (fst (snd i)) = None"
      using assms fr(1) by (simp add: getUserData_def)
    then have b: "b = (drain_failed, snd i)"
      by (simp add: b_def syncBills_def)
    have "bills (fst (snd (syncAll e now (st, srv)))) = bills (fst (snd v))"
      using True
      by (simp add: syncAll_def Let_def saveSyncToHistory_def
            c_def [symmetric] i_def [symmetric] b_def [symmetric] v_def [symmetric])
    moreover have "\<not> all_success (fst (syncAll e now (st, srv)))"
                  "billsSynced (fst (syncAll e now (st, srv))) = 0"
      using True b
      by (simp_all add: syncAll_def Let_def drain_failed_def
            c_def [symmetric] i_def [symmetric] b_def [symmetric])
    ultimately show ?thesis using alone fr b by simp
  qed
qed


theorem bills_drain_needs_user_witness:
  "getUserData server_up empty_store = None \<and>
   getPendingOperations empty_store = [] \<and> select_unsynced_bills empty_store = [] \<and>
   getUnsyncedInventoryItems empty_store = [] \<and>
   syncBills server_up ''t3'' (empty_store, ()) = (drain_failed, empty_store, ()) \<and>
   fst (syncAll server_up ''t3'' (empty_store, ())) =
     \<lparr>all_success = False, categoriesSynced = 0, itemsSynced = 0, billsSynced = 0,
       inventorySynced = 0\<rparr>"
proof -
  have u: "getUserData server_up empty_store = None"
    by (simp add: getUserData_def empty_store_def)
  have r: "fst (syncAll server_up ''t3'' (empty_store, ())) =
     \<lparr>all_success = False, categoriesSynced = 0, itemsSynced = 0, billsSynced = 0,
       inventorySynced = 0\<rparr>"
    by (simp add: cycle_defs demo_defs Let_def)
  have p: "getPendingOperations empty_store = [] \<and> select_unsynced_bills empty_store = [] \<and>
     getUnsyncedInventoryItems empty_store = []"
    by (simp add: getPendingOperations_def select_unsynced_bills_def
          getUnsyncedInventoryItems_def empty_store_def)
  show ?thesis
    using bills_drain_needs_user [OF u, of "''t3''" "()"] u r p by simp
qed



section \<open>Properties of the initial download of bills\<close>

text \<open>
  The row written for a downloaded bill has no \<open>updated_at\<close>, which the table
  requires. So the first downloaded bill without a local row ends the loop, and the
  download never adds a row.
\<close>

lemma downloaded_row_refused:
  "\<not> bills_insert_ok rows (downloaded_bill_row now bill)"
  by (simp add: bills_insert_ok_def downloaded_bill_row_def)

lemma insertDownloadedBills_adds_nothing:
  "fst (insertDownloadedBills now ds st) = st"
  by (induction ds) (simp_all add: Let_def downloaded_row_refused)

lemma initialSync_bills_adds_nothing:
  "fst (initialSync_bills e now w) = fst w"
  by (simp add: initialSync_bills_def insertDownloadedBills_adds_nothing
        split: prod.splits sum.splits)

text \<open>
  C9. The claim: a bill downloaded by the initial sync that has no local row with its
  invoice number is inserted, so that downloading it, once or twice, gives exactly one
  local row. The code: on a device with an empty \<open>bills\<close> table the server returns
  the bill \<open>INV-7\<close>; no local row has that invoice number, the INSERT is attempted
  with 29 values for 30 columns and is refused for the missing \<open>updated_at\<close>, and the
  table is still empty after the download: zero rows, not one.
\<close>

theorem downloaded_bill_not_stored:
  "fst (api_bills_download server_with_bill 100 ()) = Inr [remote_bill] \<and>
   select_by_invoice (sb_invoice_number remote_bill) empty_store = [] \<and>
   bills (fst (initialSync_bills server_with_bill ''t5'' (empty_store, ()))) = []"
  by (simp add: initialSync_bills_adds_nothing)
     (simp add: server_with_bill_def empty_store_def select_by_invoice_def)

end
